theory Spec2Isabelle
  imports Complex_Main "HOL-Library.Multiset" "HOL-Library.Sublist"
begin

section \<open>Diagram annotation pipeline: data model\<close>

text \<open>
  The embedding follows three services of the backend:
  \<^verbatim>\<open>app/services/annotation_service.py\<close>, \<^verbatim>\<open>app/services/component_detector_service.py\<close>
  and \<^verbatim>\<open>app/services/vectorization_service.py\<close>.

  Python \<^verbatim>\<open>int\<close> is \<^typ>\<open>int\<close>. A Python \<^verbatim>\<open>float\<close> is read as the real number it
  denotes, and every floating-point operation is the exact operation followed by a rounding
  function \<open>rnd\<close>, which all float-computing definitions take as their first argument
  (a float literal \<^verbatim>\<open>0.3\<close> is \<open>rnd (3/10)\<close>, the conversion of an int \<open>n\<close> is \<open>rnd (of_int n)\<close>).
  Theorems that compare floats need only two facts about the rounding, collected in \<open>fl_ok\<close>:
  it is monotone, and it leaves small dyadic rationals unchanged. The conversion of an int
  beyond the range of a double raises \<^verbatim>\<open>OverflowError\<close> in Python; that range
  (about \<open>10 ^ 308\<close>) is outside this model, where \<open>rnd\<close> is total.

  Calls into the standard library and third-party packages (the XML parser and serialiser,
  \<^verbatim>\<open>int\<close> of a string, the SAM2 model, OpenCV, the image decoder) are parameters of the
  definitions that use them.
\<close>

subsection \<open>Floats\<close>

definition fl :: "(real \<Rightarrow> real) \<Rightarrow> int \<Rightarrow> real" where
  \<comment> \<open>an int used where a float is expected\<close>
  "fl rnd n = rnd (of_int n)"

definition fl_ok :: "(real \<Rightarrow> real) \<Rightarrow> bool" where
  "fl_ok rnd \<longleftrightarrow>
     (\<forall>a b. a \<le> b \<longrightarrow> rnd a \<le> rnd b) \<and>
     (\<forall>(n::int) (k::nat). \<bar>n\<bar> \<le> 2 ^ 53 \<longrightarrow> k \<le> 64 \<longrightarrow> rnd (of_int n / 2 ^ k) = of_int n / 2 ^ k)"

definition py_trunc :: "real \<Rightarrow> int" where
  \<comment> \<open>\<^verbatim>\<open>int(x)\<close> of a float: truncation towards zero\<close>
  "py_trunc r = (if 0 \<le> r then \<lfloor>r\<rfloor> else \<lceil>r\<rceil>)"

subsection \<open>Strings of integers\<close>

function str_nat :: "nat \<Rightarrow> string" where
  "str_nat n =
     (if n < 10 then [''0123456789'' ! n]
      else str_nat (n div 10) @ [''0123456789'' ! (n mod 10)])"
  by pat_completeness auto
termination
  by (relation "measure (\<lambda>n. n)") auto

declare str_nat.simps [simp del]

definition str_int :: "int \<Rightarrow> string" where
  \<comment> \<open>\<^verbatim>\<open>str(n)\<close> of an int\<close>
  "str_int i = (if i < 0 then CHR ''-'' # str_nat (nat (- i)) else str_nat (nat i))"

subsection \<open>XML element trees\<close>

text \<open>
  An \<^verbatim>\<open>xml.etree.ElementTree.Element\<close>: tag, attribute dictionary (in insertion order),
  text, tail and the list of children. The default parser drops comments and processing
  instructions, so every tag of a parsed tree is a string.
\<close>

datatype element =
  Element (tag: string) (attrib: "(string \<times> string) list")
          (etext: "string option") (etail: "string option") (children: "element list")

definition new_element :: "string \<Rightarrow> (string \<times> string) list \<Rightarrow> element" where
  \<comment> \<open>\<^verbatim>\<open>ET.Element(tag, attrib)\<close>\<close>
  "new_element t a = Element t a None None []"

definition append_child :: "element \<Rightarrow> element \<Rightarrow> element" where
  \<comment> \<open>\<^verbatim>\<open>parent.append(child)\<close>, returning the updated parent\<close>
  "append_child parent child =
     Element (tag parent) (attrib parent) (etext parent) (etail parent) (children parent @ [child])"

definition set_text :: "element \<Rightarrow> string \<Rightarrow> element" where
  \<comment> \<open>\<^verbatim>\<open>elem.text = s\<close>\<close>
  "set_text e s = Element (tag e) (attrib e) (Some s) (etail e) (children e)"

subsection \<open>Components and labels\<close>

text \<open>
  A detected component is the dictionary built by the detector; the annotation service reads
  its keys \<^verbatim>\<open>id\<close>, \<^verbatim>\<open>bbox\<close> (\<open>[x, y, w, h]\<close>) and \<^verbatim>\<open>area\<close>. The remaining keys
  live in the extension of the record.
\<close>

type_synonym bbox = "int \<times> int \<times> int \<times> int"
type_synonym pos = "int \<times> int"

record component =
  comp_id :: int
  bbox :: bbox
  area :: int

record label =
  number :: int
  position :: pos
  component_id :: int
  has_leader_line :: bool

datatype error = ParseError | ValueError | ImageError | AttributeError

section \<open>Annotation service\<close>

text \<open>Constants set in \<^verbatim>\<open>AnnotationService.__init__\<close>.\<close>

definition label_font_size :: int where "label_font_size = 14"
definition label_font_family :: string where "label_font_family = ''Arial, sans-serif''"
definition circle_radius :: int where "circle_radius = 12"
definition min_label_distance :: int where "min_label_distance = 25"

definition importance_score :: "(real \<Rightarrow> real) \<Rightarrow> 'a component_scheme \<Rightarrow> real" where
  \<comment> \<open>the key function inside \<^verbatim>\<open>_sort_components_by_importance\<close>\<close>
  "importance_score rnd cmp =
     (case bbox cmp of (x, y, w, h) \<Rightarrow>
        let position_score =
              rnd (rnd (rnd (fl rnd y * rnd (3 / 10)) + rnd (fl rnd x * rnd (1 / 10))) / fl rnd 1000);
            area_score = area cmp
        in rnd (fl rnd area_score - position_score))"

definition sort_components_by_importance ::
  "(real \<Rightarrow> real) \<Rightarrow> 'a component_scheme list \<Rightarrow> 'a component_scheme list" where
  \<comment> \<open>\<^verbatim>\<open>sorted(components, key=importance_score, reverse=True)\<close>: a stable sort,
      equal keys keep their input order\<close>
  "sort_components_by_importance rnd components =
     sort_key (\<lambda>cmp. - importance_score rnd cmp) components"

definition calculate_center :: "bbox \<Rightarrow> pos" where
  "calculate_center bb = (case bb of (x, y, w, h) \<Rightarrow> (x + w div 2, y + h div 2))"

definition distance :: "(real \<Rightarrow> real) \<Rightarrow> pos \<Rightarrow> pos \<Rightarrow> real" where
  \<comment> \<open>\<^verbatim>\<open>_distance\<close>: the squares and their sum are int arithmetic, \<^verbatim>\<open>math.sqrt\<close> converts
      its argument to a float\<close>
  "distance rnd pos1 pos2 =
     rnd (sqrt (fl rnd ((fst pos1 - fst pos2) ^ 2 + (snd pos1 - snd pos2) ^ 2)))"

fun is_position_clear :: "(real \<Rightarrow> real) \<Rightarrow> pos \<Rightarrow> pos list \<Rightarrow> real \<Rightarrow> bool" where
  "is_position_clear rnd p [] min_distance = True"
| "is_position_clear rnd p (existing_pos # rest) min_distance =
     (if distance rnd p existing_pos < min_distance then False
      else is_position_clear rnd p rest min_distance)"

definition candidates :: "bbox \<Rightarrow> pos list" where
  \<comment> \<open>the candidate list of \<^verbatim>\<open>_calculate_label_position\<close>, in order of preference\<close>
  "candidates bb =
     (case bb of (x, y, w, h) \<Rightarrow>
        let margin = 15 in
        [(x + w + margin, y),
         (x + w + margin, y + h div 2),
         (x - margin - 30, y),
         (x + w div 2 - 10, y - margin - 15),
         (x + w div 2 - 10, y + h + margin),
         (x + w + margin, y + h),
         (x - margin - 30, y + h div 2)])"

fun scan_candidates :: "(real \<Rightarrow> real) \<Rightarrow> pos list \<Rightarrow> int \<times> int \<Rightarrow> pos list \<Rightarrow> pos option" where
  \<comment> \<open>the \<^verbatim>\<open>for pos_x, pos_y in candidates\<close> loop; \<open>None\<close> when the loop ends without a return\<close>
  "scan_candidates rnd existing_positions (img_width, img_height) [] = None"
| "scan_candidates rnd existing_positions (img_width, img_height) ((pos_x, pos_y) # rest) =
     (if pos_x < 10 \<or> pos_x > img_width - 30 then
        scan_candidates rnd existing_positions (img_width, img_height) rest
      else if pos_y < 15 \<or> pos_y > img_height - 10 then
        scan_candidates rnd existing_positions (img_width, img_height) rest
      else if is_position_clear rnd (pos_x, pos_y) existing_positions (of_int min_label_distance) then
        Some (pos_x, pos_y)
      else scan_candidates rnd existing_positions (img_width, img_height) rest)"

definition calculate_label_position ::
  "(real \<Rightarrow> real) \<Rightarrow> bbox \<Rightarrow> pos \<Rightarrow> pos list \<Rightarrow> int \<times> int \<Rightarrow> pos" where
  "calculate_label_position rnd bb component_center existing_positions image_bounds =
     (case scan_candidates rnd existing_positions image_bounds (candidates bb) of
        Some p \<Rightarrow> p
      | None \<Rightarrow> candidates bb ! 0)"

definition label_group :: "int \<Rightarrow> pos \<Rightarrow> element" where
  \<comment> \<open>the \<^verbatim>\<open>g\<close> element built by \<^verbatim>\<open>_add_label_to_svg\<close>\<close>
  "label_group label_number p =
     (case p of (x, y) \<Rightarrow>
        let grp = new_element ''g'' [(''class'', ''patent-label'')];
            circle = new_element ''circle''
              [(''cx'', str_int x), (''cy'', str_int y), (''r'', str_int circle_radius),
               (''fill'', ''white''), (''stroke'', ''black''), (''stroke-width'', ''1.5'')];
            grp = append_child grp circle;
            txt = new_element ''text''
              [(''x'', str_int x), (''y'', str_int (y + 5)),
               (''font-family'', label_font_family), (''font-size'', str_int label_font_size),
               (''font-weight'', ''bold''), (''fill'', ''black''),
               (''text-anchor'', ''middle''), (''dominant-baseline'', ''middle'')];
            txt = set_text txt (str_int label_number)
        in append_child grp txt)"

definition add_label_to_svg :: "element \<Rightarrow> int \<Rightarrow> pos \<Rightarrow> element" where
  "add_label_to_svg svg_root label_number p =
     append_child svg_root (label_group label_number p)"

definition adjusted_end :: "(real \<Rightarrow> real) \<Rightarrow> pos \<Rightarrow> pos \<Rightarrow> real \<times> real" where
  \<comment> \<open>\<open>(x2_adj, y2_adj)\<close> of \<^verbatim>\<open>_add_leader_line\<close>; in the \<^verbatim>\<open>else\<close> branch they are the ints
      \<open>x2\<close> and \<open>y2\<close> themselves\<close>
  "adjusted_end rnd from_pos to_pos =
     (case from_pos of (x1, y1) \<Rightarrow> case to_pos of (x2, y2) \<Rightarrow>
        let dx = x2 - x1;
            dy = y2 - y1;
            length = rnd (sqrt (fl rnd (dx * dx + dy * dy)))
        in if length > 0 then
             let factor = rnd (rnd (rnd (length - fl rnd circle_radius) - fl rnd 2) / length)
             in (rnd (fl rnd x1 + rnd (fl rnd dx * factor)),
                 rnd (fl rnd y1 + rnd (fl rnd dy * factor)))
           else (of_int x2, of_int y2))"

definition leader_line :: "(real \<Rightarrow> real) \<Rightarrow> pos \<Rightarrow> pos \<Rightarrow> element" where
  \<comment> \<open>the \<^verbatim>\<open>line\<close> element built by \<^verbatim>\<open>_add_leader_line\<close>\<close>
  "leader_line rnd from_pos to_pos =
     (case adjusted_end rnd from_pos to_pos of (x2_adj, y2_adj) \<Rightarrow>
        new_element ''line''
          [(''x1'', str_int (fst from_pos)), (''y1'', str_int (snd from_pos)),
           (''x2'', str_int (py_trunc x2_adj)), (''y2'', str_int (py_trunc y2_adj)),
           (''stroke'', ''black''), (''stroke-width'', ''1''),
           (''stroke-dasharray'', ''3,3''), (''class'', ''leader-line'')])"

definition add_leader_line :: "(real \<Rightarrow> real) \<Rightarrow> element \<Rightarrow> pos \<Rightarrow> pos \<Rightarrow> element" where
  "add_leader_line rnd svg_root from_pos to_pos =
     append_child svg_root (leader_line rnd from_pos to_pos)"


function replace_xmlns :: "string \<Rightarrow> string" where
  \<comment> \<open>\<^verbatim>\<open>svg_content.replace('xmlns=', 'xmlnamespace=')\<close>: every occurrence, left to right\<close>
  "replace_xmlns [] = []"
| "replace_xmlns (c # cs) =
     (if take 6 (c # cs) = ''xmlns='' then ''xmlnamespace='' @ replace_xmlns (drop 6 (c # cs))
      else c # replace_xmlns cs)"
  by pat_completeness auto
termination
  by (relation "measure length") auto

definition parse_svg :: "(string \<Rightarrow> element option) \<Rightarrow> string \<Rightarrow> element option" where
  \<comment> \<open>the \<^verbatim>\<open>try: ET.fromstring(svg_content) except ET.ParseError: ...\<close> block; \<open>fromstring\<close> is
      \<^verbatim>\<open>ET.fromstring\<close>, with \<open>None\<close> for \<^verbatim>\<open>ParseError\<close>\<close>
  "parse_svg fromstring svg_content =
     (case fromstring svg_content of
        Some r \<Rightarrow> Some r
      | None \<Rightarrow> fromstring (replace_xmlns svg_content))"

definition get_int :: "(string \<Rightarrow> int option) \<Rightarrow> element \<Rightarrow> string \<Rightarrow> int \<Rightarrow> int option" where
  \<comment> \<open>\<^verbatim>\<open>int(svg_root.get(key, default))\<close>; \<open>None\<close> is the \<^verbatim>\<open>ValueError\<close> of \<^verbatim>\<open>int\<close>
      on a string that is not an integer literal\<close>
  "get_int int_of_str e key dflt =
     (case map_of (attrib e) key of None \<Rightarrow> Some dflt | Some s \<Rightarrow> int_of_str s)"

text \<open>
  The body of the \<^verbatim>\<open>for i, component in enumerate(sorted_components)\<close> loop of
  \<^verbatim>\<open>place_labels_on_svg\<close>, on the state \<open>(svg_root, labels, placed_positions)\<close>.
\<close>

definition annotate_step ::
  "(real \<Rightarrow> real) \<Rightarrow> int \<times> int \<Rightarrow> int \<Rightarrow> int \<Rightarrow> bool \<Rightarrow> nat \<Rightarrow> 'a component_scheme \<Rightarrow>
   element \<times> label list \<times> pos list \<Rightarrow> element \<times> label list \<times> pos list" where
  "annotate_step rnd image_bounds start_number increment add_leader_lines i cmp st =
     (case st of (svg_root, labels, placed_positions) \<Rightarrow>
        let label_number = start_number + int i * increment;
            bb = bbox cmp;
            component_center = calculate_center bb;
            label_pos = calculate_label_position rnd bb component_center placed_positions image_bounds;
            svg_root = add_label_to_svg svg_root label_number label_pos;
            svg_root =
              (if add_leader_lines then
                 (if distance rnd label_pos component_center > 30 then
                    add_leader_line rnd svg_root component_center label_pos
                  else svg_root)
               else svg_root);
            labels = labels @
              [\<lparr>number = label_number, position = label_pos, component_id = comp_id cmp,
                has_leader_line =
                  (add_leader_lines \<and> distance rnd label_pos component_center > 30)\<rparr>];
            placed_positions = placed_positions @ [label_pos]
        in (svg_root, labels, placed_positions))"

fun annotate_loop ::
  "(real \<Rightarrow> real) \<Rightarrow> int \<times> int \<Rightarrow> int \<Rightarrow> int \<Rightarrow> bool \<Rightarrow> nat \<Rightarrow> 'a component_scheme list \<Rightarrow>
   element \<times> label list \<times> pos list \<Rightarrow> element \<times> label list \<times> pos list" where
  "annotate_loop rnd image_bounds start_number increment add_leader_lines i [] st = st"
| "annotate_loop rnd image_bounds start_number increment add_leader_lines i (cmp # rest) st =
     annotate_loop rnd image_bounds start_number increment add_leader_lines (Suc i) rest
       (annotate_step rnd image_bounds start_number increment add_leader_lines i cmp st)"

definition place_labels_on_svg ::
  "(string \<Rightarrow> element option) \<Rightarrow> (element \<Rightarrow> 's) \<Rightarrow> (string \<Rightarrow> int option) \<Rightarrow> (real \<Rightarrow> real) \<Rightarrow>
   string \<Rightarrow> 'a component_scheme list \<Rightarrow> int \<Rightarrow> int \<Rightarrow> bool \<Rightarrow> error + ('s \<times> label list)" where
  \<comment> \<open>\<open>tostring\<close> is \<^verbatim>\<open>ET.tostring(_, encoding='unicode')\<close>, \<open>int_of_str\<close> is \<^verbatim>\<open>int\<close> on strings\<close>
  "place_labels_on_svg fromstring tostring int_of_str rnd svg_content components
       start_number increment add_leader_lines =
     (case parse_svg fromstring svg_content of
        None \<Rightarrow> Inl ParseError
      | Some svg_root \<Rightarrow>
          (case get_int int_of_str svg_root ''width'' 800 of
             None \<Rightarrow> Inl ValueError
           | Some width \<Rightarrow>
               (case get_int int_of_str svg_root ''height'' 600 of
                  None \<Rightarrow> Inl ValueError
                | Some height \<Rightarrow>
                    let sorted_components = sort_components_by_importance rnd components
                    in (case annotate_loop rnd (width, height) start_number increment
                               add_leader_lines 0 sorted_components (svg_root, [], []) of
                          (svg_root, labels, placed_positions) \<Rightarrow>
                            Inr (tostring svg_root, labels)))))"


section \<open>Component detector service\<close>

definition classify_component :: "(real \<Rightarrow> real) \<Rightarrow> bbox \<Rightarrow> string" where
  \<comment> \<open>\<^verbatim>\<open>w / h\<close> is the true division of two ints, rounded once\<close>
  "classify_component rnd bb =
     (case bb of (x, y, w, h) \<Rightarrow>
        if h = 0 then ''unknown''
        else
          let aspect_ratio = rnd (of_int w / of_int h) in
          if rnd (9 / 10) < aspect_ratio \<and> aspect_ratio < rnd (11 / 10) then ''circular''
          else if aspect_ratio > rnd (5 / 2) then ''horizontal''
          else if aspect_ratio < rnd (4 / 10) then ''vertical''
          else if aspect_ratio > rnd (3 / 2) then ''rectangular_h''
          else if aspect_ratio < rnd (67 / 100) then ''rectangular_v''
          else ''square'')"

text \<open>
  The dictionaries returned by the detector extend a component by the mask, two scores and
  the shape class (key \<^verbatim>\<open>type\<close>).
\<close>

record 'm detected = component +
  mask :: 'm
  predicted_iou :: real
  stability_score :: real
  ctype :: string

text \<open>A mask dictionary of \<^verbatim>\<open>SAM2AutomaticMaskGenerator.generate\<close>; the two scores are optional.\<close>

record 'm sam_mask =
  m_area :: int
  m_bbox :: bbox
  m_segmentation :: 'm
  m_predicted_iou :: "real option"
  m_stability_score :: "real option"

text \<open>
  The OpenCV calls of the fallback: \<open>find_contours\<close> is \<^verbatim>\<open>cvtColor\<close>, \<^verbatim>\<open>threshold\<close> at 127
  (inverted) and \<^verbatim>\<open>findContours\<close> (external, simple chains); \<open>contour_mask\<close> is the filled
  contour drawn on a zero array, compared with zero.
\<close>

record ('img, 'c, 'm) cv2 =
  find_contours :: "'img \<Rightarrow> 'c list"
  contourArea :: "'c \<Rightarrow> real"
  boundingRect :: "'c \<Rightarrow> bbox"
  contour_mask :: "'img \<Rightarrow> 'c \<Rightarrow> 'm"

datatype load_error = ImportError | OtherException

text \<open>
  The detector instance: \<^verbatim>\<open>_initialized\<close> and \<^verbatim>\<open>mask_generator\<close> (\<open>None\<close> while the
  attribute is unset; \<^verbatim>\<open>model\<close> and \<^verbatim>\<open>predictor\<close> are never read). \<open>load_attempts\<close> is not
  an attribute: it counts how often the \<^verbatim>\<open>try\<close> block of \<^verbatim>\<open>_lazy_load_model\<close> has run, and
  the environment \<open>load n\<close> gives the outcome of its \<open>n\<close>-th run (the imports of \<^verbatim>\<open>sam2\<close>,
  \<^verbatim>\<open>build_sam2\<close> and the construction of the mask generator).
\<close>

record 'g detector =
  initialized :: bool
  mask_generator :: "'g option"
  load_attempts :: nat

definition new_detector :: "'g detector" where
  \<comment> \<open>\<^verbatim>\<open>ComponentDetectorService.__init__\<close>\<close>
  "new_detector = \<lparr>initialized = False, mask_generator = None, load_attempts = 0\<rparr>"

definition lazy_load_model :: "(nat \<Rightarrow> load_error + 'g) \<Rightarrow> 'g detector \<Rightarrow> 'g detector" where
  "lazy_load_model load d =
     (if initialized d then d
      else
        (case load (load_attempts d) of
           Inr g \<Rightarrow>
             d\<lparr>mask_generator := Some g, initialized := True,
               load_attempts := Suc (load_attempts d)\<rparr>
         | Inl ImportError \<Rightarrow>
             d\<lparr>initialized := False, load_attempts := Suc (load_attempts d)\<rparr>
         | Inl OtherException \<Rightarrow>
             d\<lparr>initialized := False, load_attempts := Suc (load_attempts d)\<rparr>))"

definition sam2_component :: "(real \<Rightarrow> real) \<Rightarrow> nat \<times> 'm sam_mask \<Rightarrow> 'm detected" where
  \<comment> \<open>the dictionary appended in the loop of \<^verbatim>\<open>_detect_with_sam2\<close>\<close>
  "sam2_component rnd im =
     (case im of (i, m) \<Rightarrow>
        \<lparr>comp_id = int i, bbox = m_bbox m, area = m_area m,
         mask = m_segmentation m,
         predicted_iou = (case m_predicted_iou m of None \<Rightarrow> 0 | Some v \<Rightarrow> v),
         stability_score = (case m_stability_score m of None \<Rightarrow> 0 | Some v \<Rightarrow> v),
         ctype = classify_component rnd (m_bbox m)\<rparr>)"

definition detect_with_sam2 ::
  "(real \<Rightarrow> real) \<Rightarrow> ('g \<Rightarrow> 'img \<Rightarrow> 'm sam_mask list) \<Rightarrow> 'g \<Rightarrow> 'img \<Rightarrow> int \<Rightarrow> 'm detected list" where
  "detect_with_sam2 rnd generate g image_array min_area =
     (let masks = generate g image_array
      in map (sam2_component rnd)
           (filter (\<lambda>(i, m). \<not> m_area m < min_area) (enumerate 0 masks)))"

definition fallback_component ::
  "(real \<Rightarrow> real) \<Rightarrow> ('img, 'c, 'm) cv2 \<Rightarrow> 'img \<Rightarrow> nat \<times> 'c \<Rightarrow> 'm detected" where
  \<comment> \<open>the dictionary appended in the loop of \<^verbatim>\<open>_detect_with_fallback\<close>\<close>
  "fallback_component rnd cv image_array ic =
     (case ic of (i, contour) \<Rightarrow>
        \<lparr>comp_id = int i, bbox = boundingRect cv contour,
         area = py_trunc (contourArea cv contour),
         mask = contour_mask cv image_array contour,
         predicted_iou = rnd (1 / 2),
         stability_score = rnd (1 / 2),
         ctype = classify_component rnd (boundingRect cv contour)\<rparr>)"

definition detect_with_fallback ::
  "(real \<Rightarrow> real) \<Rightarrow> ('img, 'c, 'm) cv2 option \<Rightarrow> 'img \<Rightarrow> int \<Rightarrow> 'm detected list" where
  \<comment> \<open>\<open>None\<close> for the OpenCV module: \<^verbatim>\<open>import cv2\<close> raises \<^verbatim>\<open>ImportError\<close>\<close>
  "detect_with_fallback rnd cv2_module image_array min_area =
     (case cv2_module of
        None \<Rightarrow> []
      | Some cv \<Rightarrow>
          map (fallback_component rnd cv image_array)
            (filter (\<lambda>(i, contour). \<not> contourArea cv contour < of_int min_area)
               (enumerate 0 (find_contours cv image_array))))"

definition py_take :: "int \<Rightarrow> 'a list \<Rightarrow> 'a list" where
  \<comment> \<open>the slice \<^verbatim>\<open>xs[:n]\<close>; a negative \<open>n\<close> counts from the end\<close>
  "py_take n xs = (if 0 \<le> n then take (nat n) xs else take (nat (int (length xs) + n)) xs)"

definition detect_components ::
  "(real \<Rightarrow> real) \<Rightarrow> ('b \<Rightarrow> 'img option) \<Rightarrow> (nat \<Rightarrow> load_error + 'g) \<Rightarrow>
   ('g \<Rightarrow> 'img \<Rightarrow> 'm sam_mask list) \<Rightarrow> ('img, 'c, 'm) cv2 option \<Rightarrow>
   'g detector \<Rightarrow> 'b \<Rightarrow> int \<Rightarrow> int \<Rightarrow> error + ('g detector \<times> 'm detected list)" where
  \<comment> \<open>\<open>decode\<close> is \<^verbatim>\<open>Image.open\<close>, \<^verbatim>\<open>convert('RGB')\<close> and \<^verbatim>\<open>np.array\<close>, with \<open>None\<close> when
      the bytes are not an image; the result carries the instance after the call.
      Reading \<^verbatim>\<open>self.mask_generator\<close> while it is unset raises \<^verbatim>\<open>AttributeError\<close>; a generator
      object is true in a condition\<close>
  "detect_components rnd decode load generate cv2_module d image_bytes min_area max_components =
     (case decode image_bytes of
        None \<Rightarrow> Inl ImageError
      | Some img_array \<Rightarrow>
          let d = lazy_load_model load d;
              finish = (\<lambda>components.
                Inr (d, py_take max_components (sort_key (\<lambda>x. - area x) components)))
          in if initialized d then
               (case mask_generator d of
                  None \<Rightarrow> Inl AttributeError
                | Some g \<Rightarrow> finish (detect_with_sam2 rnd generate g img_array min_area))
             else finish (detect_with_fallback rnd cv2_module img_array min_area))"


section \<open>Vectorization service\<close>

definition blank :: "(char \<Rightarrow> bool) \<Rightarrow> string option \<Rightarrow> bool" where
  \<comment> \<open>\<^verbatim>\<open>not s or not s.strip()\<close>: \<open>s\<close> is \<^verbatim>\<open>None\<close>, empty or all whitespace;
      \<open>is_space\<close> is \<^verbatim>\<open>str.isspace\<close> on one character\<close>
  "blank is_space s = (case s of None \<Rightarrow> True | Some t \<Rightarrow> list_all is_space t)"

definition indent_str :: "nat \<Rightarrow> string" where
  \<comment> \<open>the \<^verbatim>\<open>indent\<close> of \<^verbatim>\<open>_indent_xml\<close>: a newline, then two spaces per level\<close>
  "indent_str level = CHR 0x0A # concat (replicate level ''  '')"

definition set_tail :: "element \<Rightarrow> string \<Rightarrow> element" where
  \<comment> \<open>\<^verbatim>\<open>elem.tail = s\<close>\<close>
  "set_tail e s = Element (tag e) (attrib e) (etext e) (Some s) (children e)"

fun indent_xml :: "(char \<Rightarrow> bool) \<Rightarrow> element \<Rightarrow> nat \<Rightarrow> element" where
  \<comment> \<open>\<^verbatim>\<open>_indent_xml\<close>, returning the element it has updated in place\<close>
  "indent_xml is_space (Element t a text0 tail0 cs) level =
     (if cs \<noteq> [] then
        let text0 = (if blank is_space text0 then Some (indent_str level @ ''  '') else text0);
            tail0 = (if blank is_space tail0 then Some (indent_str level) else tail0);
            cs = map (\<lambda>child. indent_xml is_space child (Suc level)) cs;
            child = last cs;
            child = (if blank is_space (etail child) then set_tail child (indent_str level)
                     else child)
        in Element t a text0 tail0 (butlast cs @ [child])
      else
        Element t a text0
          (if level \<noteq> 0 \<and> blank is_space tail0 then Some (indent_str level) else tail0) [])"

definition basic_svg_optimization ::
  "(string \<Rightarrow> element option) \<Rightarrow> (element \<Rightarrow> string) \<Rightarrow> (char \<Rightarrow> bool) \<Rightarrow> string \<Rightarrow> error + string" where
  \<comment> \<open>the loop that removes comments finds none: the parser has dropped them\<close>
  "basic_svg_optimization fromstring tostring is_space svg_content =
     (case fromstring svg_content of
        None \<Rightarrow> Inl ParseError
      | Some r \<Rightarrow> Inr (tostring (indent_xml is_space r 0)))"

definition optimize_svg ::
  "(string \<Rightarrow> error + string) option \<Rightarrow> (string \<Rightarrow> element option) \<Rightarrow> (element \<Rightarrow> string) \<Rightarrow>
   (char \<Rightarrow> bool) \<Rightarrow> string \<Rightarrow> error + string" where
  \<comment> \<open>\<open>scour\<close> is \<^verbatim>\<open>scour.scour.scourString\<close> with the options of the source, \<open>None\<close> when
      \<^verbatim>\<open>import scour.scour\<close> raises \<^verbatim>\<open>ImportError\<close>\<close>
  "optimize_svg scour fromstring tostring is_space svg_content =
     (case scour of
        Some scourString \<Rightarrow> scourString svg_content
      | None \<Rightarrow> basic_svg_optimization fromstring tostring is_space svg_content)"

section \<open>Notions used to state the properties\<close>

text \<open>
  The squared and the Euclidean distance of two integer positions, the bounds check and
  the clearance of the placement rule as the specification words them, and the selection
  rule itself: the first acceptable candidate, or else the first candidate.
\<close>

definition sq_dist :: "pos \<Rightarrow> pos \<Rightarrow> int" where
  "sq_dist p q = (fst p - fst q) ^ 2 + (snd p - snd q) ^ 2"

definition euclid :: "pos \<Rightarrow> pos \<Rightarrow> real" where
  "euclid p q = sqrt (of_int (sq_dist p q))"

definition within_bounds :: "int \<times> int \<Rightarrow> pos \<Rightarrow> bool" where
  "within_bounds image_bounds p \<longleftrightarrow>
     (case image_bounds of (width, height) \<Rightarrow>
        fst p \<ge> 10 \<and> fst p \<le> width - 30 \<and> snd p \<ge> 15 \<and> snd p \<le> height - 10)"

definition clear_of :: "pos list \<Rightarrow> pos \<Rightarrow> bool" where
  "clear_of placed p \<longleftrightarrow> (\<forall>e \<in> set placed. 25 \<le> euclid p e)"

definition first_acceptable :: "int \<times> int \<Rightarrow> pos list \<Rightarrow> pos list \<Rightarrow> pos" where
  "first_acceptable image_bounds placed cands =
     (case find (\<lambda>p. within_bounds image_bounds p \<and> clear_of placed p) cands of
        Some p \<Rightarrow> p
      | None \<Rightarrow> hd cands)"

text \<open>
  The label the loop body records for one component, the elements it appends for it, and
  the labels of a whole run of the loop. \<open>extend\<close> appends elements to the children of a
  root and changes nothing else.
\<close>

definition step_label ::
  "(real \<Rightarrow> real) \<Rightarrow> int \<times> int \<Rightarrow> int \<Rightarrow> int \<Rightarrow> bool \<Rightarrow> nat \<Rightarrow> 'a component_scheme \<Rightarrow> pos list \<Rightarrow> label" where
  "step_label rnd image_bounds start_number increment add_leader_lines i cmp placed =
     (let component_center = calculate_center (bbox cmp);
          label_pos = calculate_label_position rnd (bbox cmp) component_center placed image_bounds
      in \<lparr>number = start_number + int i * increment, position = label_pos,
          component_id = comp_id cmp,
          has_leader_line = (add_leader_lines \<and> distance rnd label_pos component_center > 30)\<rparr>)"

definition label_elements :: "(real \<Rightarrow> real) \<Rightarrow> 'a component_scheme \<Rightarrow> label \<Rightarrow> element list" where
  "label_elements rnd cmp l =
     label_group (number l) (position l) #
     (if has_leader_line l then [leader_line rnd (calculate_center (bbox cmp)) (position l)] else [])"

fun placements ::
  "(real \<Rightarrow> real) \<Rightarrow> int \<times> int \<Rightarrow> int \<Rightarrow> int \<Rightarrow> bool \<Rightarrow> nat \<Rightarrow> 'a component_scheme list \<Rightarrow> pos list \<Rightarrow> label list" where
  "placements rnd image_bounds start_number increment add_leader_lines i [] placed = []"
| "placements rnd image_bounds start_number increment add_leader_lines i (cmp # rest) placed =
     (let l = step_label rnd image_bounds start_number increment add_leader_lines i cmp placed
      in l # placements rnd image_bounds start_number increment add_leader_lines (Suc i) rest
               (placed @ [position l]))"

definition extend :: "element \<Rightarrow> element list \<Rightarrow> element" where
  "extend e new = Element (tag e) (attrib e) (etext e) (etail e) (children e @ new)"

text \<open>
  The shape class as a function of the exact ratio \<open>w / h\<close>, with the thresholds of the
  specification.
\<close>

definition shape_of_ratio :: "real \<Rightarrow> string" where
  "shape_of_ratio r =
     (if 9 / 10 < r \<and> r < 11 / 10 then ''circular''
      else if r > 5 / 2 then ''horizontal''
      else if r < 4 / 10 then ''vertical''
      else if r > 3 / 2 then ''rectangular_h''
      else if r < 67 / 100 then ''rectangular_v''
      else ''square'')"

definition shape_class :: "int \<Rightarrow> int \<Rightarrow> string" where
  "shape_class w h = (if h = 0 then ''unknown'' else shape_of_ratio (of_int w / of_int h))"


text \<open>
  The importance score as the specification writes it, in exact arithmetic:
  \<open>area - (0.3 y + 0.1 x) / 1000\<close> for the top-left corner \<open>(x, y)\<close> of the bounding box. The
  range in which the score the code computes in floats is compared with it: corners of
  absolute value at most \<open>2 ^ 24\<close>, areas of absolute value at most \<open>2 ^ 32\<close>.
\<close>

definition importance_formula :: "'a component_scheme \<Rightarrow> real" where
  "importance_formula cmp =
     (case bbox cmp of (x, y, w, h) \<Rightarrow>
        of_int (area cmp) - (3 / 10 * of_int y + 1 / 10 * of_int x) / 1000)"

definition score_range :: "'a component_scheme \<Rightarrow> bool" where
  "score_range cmp \<longleftrightarrow>
     (case bbox cmp of (x, y, w, h) \<Rightarrow>
        \<bar>x\<bar> \<le> 2 ^ 24 \<and> \<bar>y\<bar> \<le> 2 ^ 24 \<and> \<bar>area cmp\<bar> \<le> 2 ^ 32)"


text \<open>
  A sequence of calls of \<^verbatim>\<open>detect_components\<close> on one instance, each call given by its
  image bytes, \<^verbatim>\<open>min_area\<close> and \<^verbatim>\<open>max_components\<close>: the results in order, and the instance
  after the last call. A call that raises leaves the instance as it was.
\<close>

fun detect_calls ::
  "(real \<Rightarrow> real) \<Rightarrow> ('b \<Rightarrow> 'img option) \<Rightarrow> (nat \<Rightarrow> load_error + 'g) \<Rightarrow>
   ('g \<Rightarrow> 'img \<Rightarrow> 'm sam_mask list) \<Rightarrow> ('img, 'c, 'm) cv2 option \<Rightarrow>
   'g detector \<Rightarrow> ('b \<times> int \<times> int) list \<Rightarrow> (error + 'm detected list) list \<times> 'g detector" where
  "detect_calls rnd decode load generate cv2_module d [] = ([], d)"
| "detect_calls rnd decode load generate cv2_module d
     ((image_bytes, min_area, max_components) # rest) =
     (case detect_components rnd decode load generate cv2_module d image_bytes min_area
             max_components of
        Inl e \<Rightarrow>
          (case detect_calls rnd decode load generate cv2_module d rest of
             (results, d') \<Rightarrow> (Inl e # results, d'))
      | Inr (d1, components) \<Rightarrow>
          (case detect_calls rnd decode load generate cv2_module d1 rest of
             (results, d') \<Rightarrow> (Inr components # results, d')))"

section \<open>Rounding and comparisons\<close>

lemma fl_ok_id: "fl_ok id"
  by (simp add: fl_ok_def)

lemma fl_ok_mono: "fl_ok rnd \<Longrightarrow> a \<le> b \<Longrightarrow> rnd a \<le> rnd b"
  by (simp add: fl_ok_def)

lemma fl_ok_dyadic:
  "fl_ok rnd \<Longrightarrow> \<bar>n\<bar> \<le> 2 ^ 53 \<Longrightarrow> k \<le> 64 \<Longrightarrow> rnd (of_int n / 2 ^ k) = of_int n / 2 ^ k"
  by (simp add: fl_ok_def)

lemma fl_ok_int: "fl_ok rnd \<Longrightarrow> \<bar>n\<bar> \<le> 2 ^ 53 \<Longrightarrow> rnd (of_int n) = of_int n"
  using fl_ok_dyadic [of rnd n 0] by simp

lemma sq_dist_nonneg: "0 \<le> sq_dist p q"
  by (simp add: sq_dist_def)

lemma distance_lt_25:
  assumes "fl_ok rnd"
  shows "distance rnd p q < 25 \<longleftrightarrow> sq_dist p q < 625"
proof (cases "sq_dist p q < 625")
  case True
  have s: "rnd (of_int (sq_dist p q)) = of_int (sq_dist p q)"
    using True sq_dist_nonneg [of p q] by (intro fl_ok_int [OF assms]) simp
  have "of_int (sq_dist p q) \<le> (624::real)" using True by simp
  then have "sqrt (of_int (sq_dist p q)) \<le> sqrt 624"
    by (rule real_sqrt_le_mono)
  also have "sqrt 624 \<le> 1599 / 64"
    by (rule real_le_lsqrt) (simp_all add: power2_eq_square)
  finally have "rnd (sqrt (of_int (sq_dist p q))) \<le> rnd (of_int 1599 / 2 ^ 6)"
    by (intro fl_ok_mono [OF assms]) simp
  also have "\<dots> = of_int 1599 / 2 ^ 6"
    by (rule fl_ok_dyadic [OF assms]) simp_all
  finally show ?thesis using True s
    by (simp add: distance_def fl_def sq_dist_def)
next
  case False
  then have "(625::real) \<le> of_int (sq_dist p q)" by simp
  then have "rnd (of_int 625) \<le> rnd (of_int (sq_dist p q))"
    by (intro fl_ok_mono [OF assms]) simp
  moreover have "rnd (of_int 625) = of_int 625"
    by (rule fl_ok_int [OF assms]) simp
  ultimately have "(625::real) \<le> rnd (of_int (sq_dist p q))" by simp
  then have "sqrt 625 \<le> sqrt (rnd (of_int (sq_dist p q)))"
    by (rule real_sqrt_le_mono)
  moreover have "sqrt 625 = 25"
    using real_sqrt_abs [of 25] by (simp add: power2_eq_square)
  ultimately have "(25::real) \<le> sqrt (rnd (of_int (sq_dist p q)))" by simp
  then have "rnd (of_int 25) \<le> rnd (sqrt (rnd (of_int (sq_dist p q))))"
    by (intro fl_ok_mono [OF assms]) simp
  moreover have "rnd (of_int 25) = of_int 25"
    by (rule fl_ok_int [OF assms]) simp
  ultimately have "25 \<le> rnd (sqrt (rnd (of_int (sq_dist p q))))" by simp
  then show ?thesis using False
    by (simp add: distance_def fl_def sq_dist_def)
qed

lemma distance_gt_30:
  assumes "fl_ok rnd"
  shows "distance rnd p q > 30 \<longleftrightarrow> sq_dist p q > 900"
proof (cases "sq_dist p q > 900")
  case True
  then have "(901::real) \<le> of_int (sq_dist p q)" by simp
  then have "rnd (of_int 901) \<le> rnd (of_int (sq_dist p q))"
    by (intro fl_ok_mono [OF assms]) simp
  moreover have "rnd (of_int 901) = of_int 901"
    by (rule fl_ok_int [OF assms]) simp
  ultimately have "(901::real) \<le> rnd (of_int (sq_dist p q))" by simp
  then have a: "sqrt 901 \<le> sqrt (rnd (of_int (sq_dist p q)))"
    by (rule real_sqrt_le_mono)
  have b: "of_int 1921 / 2 ^ 6 \<le> sqrt 901"
    by (rule real_le_rsqrt) (simp add: power2_eq_square)
  have "of_int 1921 / 2 ^ 6 \<le> sqrt (rnd (of_int (sq_dist p q)))"
    by (rule order_trans [OF b a])
  then have "rnd (of_int 1921 / 2 ^ 6) \<le> rnd (sqrt (rnd (of_int (sq_dist p q))))"
    by (rule fl_ok_mono [OF assms])
  moreover have "rnd (of_int 1921 / 2 ^ 6) = of_int 1921 / 2 ^ 6"
    by (rule fl_ok_dyadic [OF assms]) simp_all
  ultimately have "1921 / 64 \<le> rnd (sqrt (rnd (of_int (sq_dist p q))))" by simp
  then show ?thesis using True
    by (simp add: distance_def fl_def sq_dist_def)
next
  case False
  have s: "rnd (of_int (sq_dist p q)) = of_int (sq_dist p q)"
    using False sq_dist_nonneg [of p q] by (intro fl_ok_int [OF assms]) simp
  have "of_int (sq_dist p q) \<le> (900::real)" using False by simp
  then have "sqrt (of_int (sq_dist p q)) \<le> sqrt 900"
    by (rule real_sqrt_le_mono)
  moreover have "sqrt 900 = 30"
    using real_sqrt_abs [of 30] by (simp add: power2_eq_square)
  ultimately have "sqrt (of_int (sq_dist p q)) \<le> of_int 30" by simp
  then have "rnd (sqrt (of_int (sq_dist p q))) \<le> rnd (of_int 30)"
    by (rule fl_ok_mono [OF assms])
  moreover have "rnd (of_int 30) = of_int 30"
    by (rule fl_ok_int [OF assms]) simp
  ultimately show ?thesis using False s
    by (simp add: distance_def fl_def sq_dist_def)
qed

lemma euclid_ge_25: "25 \<le> euclid p q \<longleftrightarrow> 625 \<le> sq_dist p q"
proof -
  have "sqrt 625 = 25"
    using real_sqrt_abs [of 25] by (simp add: power2_eq_square)
  then have "25 \<le> euclid p q \<longleftrightarrow> sqrt 625 \<le> sqrt (of_int (sq_dist p q))"
    by (simp add: euclid_def)
  also have "\<dots> \<longleftrightarrow> (625::real) \<le> of_int (sq_dist p q)"
    by (rule real_sqrt_le_iff)
  also have "\<dots> \<longleftrightarrow> 625 \<le> sq_dist p q" by linarith
  finally show ?thesis .
qed


lemma rnd_strict_right:
  assumes ok: "fl_ok rnd" and gap: "a + 2 / 2 ^ 51 \<le> b" and b: "\<bar>b\<bar> \<le> 3"
  shows "rnd a < rnd b"
proof -
  define m where "m = \<lfloor>b * 2 ^ 51\<rfloor>"
  have m1: "of_int m \<le> b * 2 ^ 51" and m2: "b * 2 ^ 51 < of_int m + 1"
    unfolding m_def by linarith+
  have "m \<le> \<lfloor>of_int (3 * 2 ^ 51) :: real\<rfloor>"
    unfolding m_def using b by (intro floor_mono) simp
  moreover have "\<lfloor>of_int (- (3 * 2 ^ 51)) :: real\<rfloor> \<le> m"
    unfolding m_def using b by (intro floor_mono) simp
  ultimately have "\<bar>m\<bar> \<le> 3 * 2 ^ 51"
    unfolding floor_of_int by simp
  then have mb: "\<bar>m\<bar> \<le> 2 ^ 53" "\<bar>m - 1\<bar> \<le> 2 ^ 53" by simp_all
  have d2: "rnd (of_int m / 2 ^ 51) = of_int m / 2 ^ 51"
    by (rule fl_ok_dyadic [OF ok mb(1)]) simp
  have d1: "rnd (of_int (m - 1) / 2 ^ 51) = of_int (m - 1) / 2 ^ 51"
    by (rule fl_ok_dyadic [OF ok mb(2)]) simp
  have "of_int m / 2 ^ 51 \<le> b" using m1 by (simp add: field_simps)
  then have r2: "of_int m / 2 ^ 51 \<le> rnd b"
    using fl_ok_mono [OF ok, of "of_int m / 2 ^ 51" b] d2 by simp
  have "b - 2 / 2 ^ 51 < of_int (m - 1) / 2 ^ 51" using m2 by (simp add: field_simps)
  then have "a \<le> of_int (m - 1) / 2 ^ 51" using gap by linarith
  then have r1: "rnd a \<le> of_int (m - 1) / 2 ^ 51"
    using fl_ok_mono [OF ok, of a "of_int (m - 1) / 2 ^ 51"] d1 by simp
  have "of_int (m - 1) / 2 ^ 51 < (of_int m / 2 ^ 51 :: real)"
    by (simp add: field_simps)
  with r1 r2 show ?thesis by linarith
qed

lemma rnd_strict_left:
  assumes ok: "fl_ok rnd" and gap: "a + 2 / 2 ^ 51 \<le> b" and a: "\<bar>a\<bar> \<le> 3"
  shows "rnd a < rnd b"
proof -
  define m where "m = \<lceil>a * 2 ^ 51\<rceil>"
  have m1: "a * 2 ^ 51 \<le> of_int m" and m2: "of_int m < a * 2 ^ 51 + 1"
    unfolding m_def by linarith+
  have "m \<le> \<lceil>of_int (3 * 2 ^ 51) :: real\<rceil>"
    unfolding m_def using a by (intro ceiling_mono) simp
  moreover have "\<lceil>of_int (- (3 * 2 ^ 51)) :: real\<rceil> \<le> m"
    unfolding m_def using a by (intro ceiling_mono) simp
  ultimately have "\<bar>m\<bar> \<le> 3 * 2 ^ 51"
    unfolding ceiling_of_int by simp
  then have mb: "\<bar>m\<bar> \<le> 2 ^ 53" "\<bar>m + 1\<bar> \<le> 2 ^ 53" by simp_all
  have d1: "rnd (of_int m / 2 ^ 51) = of_int m / 2 ^ 51"
    by (rule fl_ok_dyadic [OF ok mb(1)]) simp
  have d2: "rnd (of_int (m + 1) / 2 ^ 51) = of_int (m + 1) / 2 ^ 51"
    by (rule fl_ok_dyadic [OF ok mb(2)]) simp
  have "a \<le> of_int m / 2 ^ 51" using m1 by (simp add: field_simps)
  then have r1: "rnd a \<le> of_int m / 2 ^ 51"
    using fl_ok_mono [OF ok, of a "of_int m / 2 ^ 51"] d1 by simp
  have "of_int (m + 1) / 2 ^ 51 < a + 2 / 2 ^ 51" using m2 by (simp add: field_simps)
  then have "of_int (m + 1) / 2 ^ 51 \<le> b" using gap by linarith
  then have r2: "of_int (m + 1) / 2 ^ 51 \<le> rnd b"
    using fl_ok_mono [OF ok, of "of_int (m + 1) / 2 ^ 51" b] d2 by simp
  have "of_int m / 2 ^ 51 < (of_int (m + 1) / 2 ^ 51 :: real)"
    by (simp add: field_simps)
  with r1 r2 show ?thesis by linarith
qed

text \<open>Two distinct fractions \<open>w / h\<close> and \<open>p / q\<close> differ by at least \<open>1 / (q * \<bar>h\<bar>)\<close>.\<close>

lemma fraction_gap:
  fixes w h p q :: int
  assumes h: "h \<noteq> 0" and q: "0 < q"
    and lt: "(of_int w / of_int h :: real) < of_int p / of_int q"
  shows "(of_int w / of_int h :: real) + 1 / of_int (q * \<bar>h\<bar>) \<le> of_int p / of_int q"
proof -
  define w' where "w' = (if 0 < h then w else - w)"
  have wh: "(of_int w / of_int h :: real) = of_int w' / of_int \<bar>h\<bar>"
    using h by (auto simp: w'_def)
  have hp: "0 < \<bar>h\<bar>" using h by simp
  have "(of_int w' / of_int \<bar>h\<bar> :: real) < of_int p / of_int q"
    using lt wh by simp
  then have "(of_int (w' * q) :: real) < of_int (p * \<bar>h\<bar>)"
    using hp q by (simp add: field_simps)
  then have "w' * q < p * \<bar>h\<bar>" by linarith
  then have "w' * q + 1 \<le> p * \<bar>h\<bar>" by simp
  then have "(of_int (w' * q + 1) :: real) \<le> of_int (p * \<bar>h\<bar>)"
    by (simp only: of_int_le_iff)
  moreover have pos: "0 < (of_int (q * \<bar>h\<bar>) :: real)" using hp q by simp
  ultimately have "(of_int (w' * q + 1) :: real) / of_int (q * \<bar>h\<bar>)
                     \<le> of_int (p * \<bar>h\<bar>) / of_int (q * \<bar>h\<bar>)"
    by (intro divide_right_mono) simp_all
  moreover have "(of_int (w' * q + 1) :: real) / of_int (q * \<bar>h\<bar>)
                   = of_int w' / of_int \<bar>h\<bar> + 1 / of_int (q * \<bar>h\<bar>)"
    using hp q by (simp add: field_simps)
  moreover have "(of_int (p * \<bar>h\<bar>) :: real) / of_int (q * \<bar>h\<bar>) = of_int p / of_int q"
    using hp q by simp
  ultimately show ?thesis using wh by simp
qed

lemma fraction_gap':
  fixes w h p q :: int
  assumes h: "h \<noteq> 0" and q: "0 < q"
    and lt: "(of_int p / of_int q :: real) < of_int w / of_int h"
  shows "(of_int p / of_int q :: real) + 1 / of_int (q * \<bar>h\<bar>) \<le> of_int w / of_int h"
proof -
  have "(of_int (- w) / of_int h :: real) < of_int (- p) / of_int q"
    using lt by simp
  from fraction_gap [OF h q this] show ?thesis by simp
qed

lemma small_gap:
  fixes h q :: int
  assumes "h \<noteq> 0" "\<bar>h\<bar> \<le> 2 ^ 40" "0 < q" "q \<le> 100"
  shows "(2 / 2 ^ 51 :: real) \<le> 1 / of_int (q * \<bar>h\<bar>)"
proof -
  have "q * \<bar>h\<bar> \<le> 100 * 2 ^ 40"
    using assms by (intro mult_mono) simp_all
  then have "q * \<bar>h\<bar> \<le> 2 ^ 50" by simp
  then have "(of_int (q * \<bar>h\<bar>) :: real) \<le> of_int (2 ^ 50)"
    by (simp only: of_int_le_iff)
  then have "(of_int (q * \<bar>h\<bar>) :: real) \<le> 2 ^ 50" by simp
  moreover have "0 < (of_int (q * \<bar>h\<bar>) :: real)" using assms by simp
  ultimately have "1 / (2 ^ 50 :: real) \<le> 1 / of_int (q * \<bar>h\<bar>)"
    by (intro divide_left_mono) simp_all
  then show ?thesis by simp
qed

lemma ratio_less_const:
  fixes w h p q :: int
  assumes ok: "fl_ok rnd" and h: "h \<noteq> 0" "\<bar>h\<bar> \<le> 2 ^ 40"
    and q: "0 < q" "q \<le> 100" and c: "\<bar>of_int p / of_int q :: real\<bar> \<le> 3"
  shows "rnd (of_int w / of_int h) < rnd (of_int p / of_int q) \<longleftrightarrow>
         (of_int w / of_int h :: real) < of_int p / of_int q"
proof
  assume "(of_int w / of_int h :: real) < of_int p / of_int q"
  from fraction_gap [OF h(1) q(1) this] small_gap [OF h q]
  have "(of_int w / of_int h :: real) + 2 / 2 ^ 51 \<le> of_int p / of_int q" by linarith
  then show "rnd (of_int w / of_int h) < rnd (of_int p / of_int q)"
    using c by (rule rnd_strict_right [OF ok])
next
  assume l: "rnd (of_int w / of_int h) < rnd (of_int p / of_int q)"
  show "(of_int w / of_int h :: real) < of_int p / of_int q"
  proof (rule ccontr)
    assume "\<not> ?thesis"
    then have "(of_int p / of_int q :: real) \<le> of_int w / of_int h" by simp
    from fl_ok_mono [OF ok this] l show False by simp
  qed
qed

lemma const_less_ratio:
  fixes w h p q :: int
  assumes ok: "fl_ok rnd" and h: "h \<noteq> 0" "\<bar>h\<bar> \<le> 2 ^ 40"
    and q: "0 < q" "q \<le> 100" and c: "\<bar>of_int p / of_int q :: real\<bar> \<le> 3"
  shows "rnd (of_int p / of_int q) < rnd (of_int w / of_int h) \<longleftrightarrow>
         (of_int p / of_int q :: real) < of_int w / of_int h"
proof
  assume "(of_int p / of_int q :: real) < of_int w / of_int h"
  from fraction_gap' [OF h(1) q(1) this] small_gap [OF h q]
  have "(of_int p / of_int q :: real) + 2 / 2 ^ 51 \<le> of_int w / of_int h" by linarith
  then show "rnd (of_int p / of_int q) < rnd (of_int w / of_int h)"
    using c by (rule rnd_strict_left [OF ok])
next
  assume l: "rnd (of_int p / of_int q) < rnd (of_int w / of_int h)"
  show "(of_int p / of_int q :: real) < of_int w / of_int h"
  proof (rule ccontr)
    assume "\<not> ?thesis"
    then have "(of_int w / of_int h :: real) \<le> of_int p / of_int q" by simp
    from fl_ok_mono [OF ok this] l show False by simp
  qed
qed

section \<open>The placement rule\<close>

lemma is_position_clear_iff:
  assumes "fl_ok rnd"
  shows "is_position_clear rnd p es (of_int min_label_distance) = clear_of es p"
proof (induction es)
  case Nil
  then show ?case by (simp add: clear_of_def)
next
  case (Cons e es)
  have "distance rnd p e < 25 \<longleftrightarrow> \<not> 25 \<le> euclid p e"
    using distance_lt_25 [OF assms, of p e] euclid_ge_25 [of p e] by auto
  with Cons show ?case
    by (simp add: clear_of_def min_label_distance_def)
qed

lemma scan_candidates_find:
  assumes "fl_ok rnd"
  shows "scan_candidates rnd existing image_bounds cs =
         find (\<lambda>p. within_bounds image_bounds p \<and> clear_of existing p) cs"
proof (induction cs)
  case Nil
  then show ?case by (cases image_bounds) simp
next
  case (Cons c cs)
  obtain W H where b: "image_bounds = (W, H)" by (cases image_bounds)
  obtain px py where c: "c = (px, py)" by (cases c)
  show ?case
    using Cons is_position_clear_iff [OF assms, of "(px, py)" existing]
    by (auto simp: b c within_bounds_def)
qed

lemma candidates_length: "length (candidates bb) = 7"
  by (cases bb) (simp add: candidates_def Let_def)

section \<open>The annotation loop\<close>

lemma extend_Nil: "extend e [] = e"
  by (cases e) (simp add: extend_def)

lemma extend_extend: "extend (extend e xs) ys = extend e (xs @ ys)"
  by (simp add: extend_def)

lemma append_child_extend: "append_child e c = extend e [c]"
  by (simp add: append_child_def extend_def)

lemma annotate_step_eq:
  "annotate_step rnd b s inc lead i cmp (doc, labels, placed) =
     (extend doc (label_elements rnd cmp (step_label rnd b s inc lead i cmp placed)),
      labels @ [step_label rnd b s inc lead i cmp placed],
      placed @ [position (step_label rnd b s inc lead i cmp placed)])"
  by (simp add: annotate_step_def step_label_def label_elements_def Let_def
      add_label_to_svg_def add_leader_line_def append_child_extend extend_extend)

lemma annotate_loop_eq:
  "annotate_loop rnd b s inc lead i cs (doc, labels, placed) =
     (extend doc (concat (map2 (label_elements rnd) cs (placements rnd b s inc lead i cs placed))),
      labels @ placements rnd b s inc lead i cs placed,
      placed @ map position (placements rnd b s inc lead i cs placed))"
proof (induction cs arbitrary: i doc labels placed)
  case Nil
  then show ?case by (simp add: extend_Nil)
next
  case (Cons c cs)
  show ?case
    by (simp add: annotate_step_eq Cons.IH Let_def extend_extend)
qed

lemma placements_length: "length (placements rnd b s inc lead i cs placed) = length cs"
  by (induction cs arbitrary: i placed) (simp_all add: Let_def)

lemma placements_nth:
  "k < length cs \<Longrightarrow>
   placements rnd b s inc lead i cs placed ! k =
     step_label rnd b s inc lead (i + k) (cs ! k)
       (placed @ map position (take k (placements rnd b s inc lead i cs placed)))"
proof (induction cs arbitrary: i placed k)
  case Nil
  then show ?case by simp
next
  case (Cons c cs)
  show ?case
  proof (cases k)
    case 0
    then show ?thesis by (simp add: Let_def)
  next
    case (Suc k')
    with Cons.prems have "k' < length cs" by simp
    from Cons.IH [OF this] Suc show ?thesis by (simp add: Let_def)
  qed
qed

lemma step_label_sel:
  "number (step_label rnd b s inc lead i c placed) = s + int i * inc"
  "component_id (step_label rnd b s inc lead i c placed) = comp_id c"
  "position (step_label rnd b s inc lead i c placed) =
     calculate_label_position rnd (bbox c) (calculate_center (bbox c)) placed b"
  "has_leader_line (step_label rnd b s inc lead i c placed) =
     (lead \<and> distance rnd (calculate_label_position rnd (bbox c) (calculate_center (bbox c)) placed b)
        (calculate_center (bbox c)) > 30)"
  by (simp_all add: step_label_def Let_def)

lemma placements_number:
  "map number (placements rnd b s inc lead i cs placed) =
   map (\<lambda>k. s + int k * inc) [i ..< i + length cs]"
proof (induction cs arbitrary: i placed)
  case Nil
  then show ?case by simp
next
  case (Cons c cs)
  have "[i ..< i + length (c # cs)] = i # [Suc i ..< Suc i + length cs]"
    by (simp add: upt_rec)
  then show ?case
    by (simp add: Let_def Cons.IH step_label_sel del: upt_Suc)
qed

lemma placements_component_id:
  "map component_id (placements rnd b s inc lead i cs placed) = map comp_id cs"
  by (induction cs arbitrary: i placed) (simp_all add: Let_def step_label_sel)

lemma place_labels_success:
  assumes "place_labels_on_svg fromstring tostring int_of_str rnd svg_content components
             start_number increment add_leader_lines = Inr (out, labels)"
  shows "\<exists>svg_root width height.
           parse_svg fromstring svg_content = Some svg_root \<and>
           get_int int_of_str svg_root ''width'' 800 = Some width \<and>
           get_int int_of_str svg_root ''height'' 600 = Some height \<and>
           labels = placements rnd (width, height) start_number increment add_leader_lines 0
                      (sort_components_by_importance rnd components) [] \<and>
           out = tostring (extend svg_root
                   (concat (map2 (label_elements rnd)
                      (sort_components_by_importance rnd components) labels)))"
  using assms
  by (auto simp: place_labels_on_svg_def parse_svg_def annotate_loop_eq Let_def
      split: option.splits)


lemma calculate_label_position_eq:
  assumes "fl_ok rnd"
  shows "calculate_label_position rnd bb component_center existing image_bounds =
         first_acceptable image_bounds existing (candidates bb)"
proof -
  have "candidates bb \<noteq> []"
    using candidates_length [of bb] by auto
  then show ?thesis
    by (cases "candidates bb")
      (simp_all add: calculate_label_position_def first_acceptable_def
        scan_candidates_find [OF assms] split: option.splits)
qed

lemma place_labels_eq:
  assumes "parse_svg fromstring svg_content = Some svg_root"
    and "get_int int_of_str svg_root ''width'' 800 = Some width"
    and "get_int int_of_str svg_root ''height'' 600 = Some height"
  shows "place_labels_on_svg fromstring tostring int_of_str rnd svg_content components
           start_number increment add_leader_lines =
         Inr (tostring (extend svg_root
                (concat (map2 (label_elements rnd)
                   (sort_components_by_importance rnd components)
                   (placements rnd (width, height) start_number increment add_leader_lines 0
                      (sort_components_by_importance rnd components) [])))),
              placements rnd (width, height) start_number increment add_leader_lines 0
                (sort_components_by_importance rnd components) [])"
  using assms by (simp add: place_labels_on_svg_def annotate_loop_eq Let_def)

lemma sort_components_length:
  "length (sort_components_by_importance rnd components) = length components"
  by (simp add: sort_components_by_importance_def)

lemma sort_components_mset:
  "mset (sort_components_by_importance rnd components) = mset components"
  by (simp add: sort_components_by_importance_def)

lemma sort_components_descending:
  "sorted_wrt (\<lambda>a b. importance_score rnd b \<le> importance_score rnd a)
     (sort_components_by_importance rnd components)"
proof -
  have "sorted (map (\<lambda>c. - importance_score rnd c)
          (sort_key (\<lambda>c. - importance_score rnd c) components))"
    by (rule sorted_sort_key)
  then show ?thesis
    by (simp add: sort_components_by_importance_def sorted_map)
qed

text \<open>The blank 800 x 600 canvas and two boxes at the left edge, used in the instances.\<close>

lemma blank_canvas:
  "parse_svg (\<lambda>s. Some (Element ''svg'' [] None None [])) ''<svg/>'' =
     Some (Element ''svg'' [] None None [])"
  "get_int (\<lambda>s. None) (Element ''svg'' [] None None []) ''width'' 800 = Some 800"
  "get_int (\<lambda>s. None) (Element ''svg'' [] None None []) ''height'' 600 = Some 600"
  by (simp_all add: parse_svg_def get_int_def)

lemma two_boxes_sorted:
  "sort_components_by_importance id
     [\<lparr>comp_id = 1, bbox = (5, 280, 4, 4), area = 16\<rparr>,
      \<lparr>comp_id = 0, bbox = (0, 300, 9, 280), area = 2520\<rparr>] =
     [\<lparr>comp_id = 0, bbox = (0, 300, 9, 280), area = 2520\<rparr>,
      \<lparr>comp_id = 1, bbox = (5, 280, 4, 4), area = 16\<rparr>]"
  by (simp add: sort_components_by_importance_def importance_score_def fl_def Let_def)

lemma two_boxes_positions:
  "calculate_label_position id (0, 300, 9, 280) c [] (800, 600) = (24, 300)"
  "calculate_label_position id (5, 280, 4, 4) c [(24, 300)] (800, 600) = (24, 280)"
  by (simp_all add: calculate_label_position_eq [OF fl_ok_id] first_acceptable_def candidates_def
      within_bounds_def clear_of_def euclid_ge_25 sq_dist_def)

lemma two_boxes_steps:
  "step_label id (800, 600) 10 10 True 0
     \<lparr>comp_id = 0, bbox = (0, 300, 9, 280), area = 2520\<rparr> [] =
   \<lparr>number = 10, position = (24, 300), component_id = 0, has_leader_line = True\<rparr>"
  "step_label id (800, 600) 10 10 True (Suc 0)
     \<lparr>comp_id = 1, bbox = (5, 280, 4, 4), area = 16\<rparr> [(24, 300)] =
   \<lparr>number = 20, position = (24, 280), component_id = 1, has_leader_line = False\<rparr>"
  by (simp_all add: step_label_def Let_def calculate_center_def two_boxes_positions
      distance_gt_30 [OF fl_ok_id] sq_dist_def)

lemma two_boxes_placements:
  "placements id (800, 600) 10 10 True 0
     [\<lparr>comp_id = 0, bbox = (0, 300, 9, 280), area = 2520\<rparr>,
      \<lparr>comp_id = 1, bbox = (5, 280, 4, 4), area = 16\<rparr>] [] =
   [\<lparr>number = 10, position = (24, 300), component_id = 0, has_leader_line = True\<rparr>,
    \<lparr>number = 20, position = (24, 280), component_id = 1, has_leader_line = False\<rparr>]"
  by (simp add: Let_def two_boxes_steps)

lemma two_boxes_labels:
  "map_sum id snd
     (place_labels_on_svg (\<lambda>s. Some (Element ''svg'' [] None None [])) id (\<lambda>s. None) id ''<svg/>''
        [\<lparr>comp_id = 1, bbox = (5, 280, 4, 4), area = 16\<rparr>,
         \<lparr>comp_id = 0, bbox = (0, 300, 9, 280), area = 2520\<rparr>] 10 10 True) =
   Inr [\<lparr>number = 10, position = (24, 300), component_id = 0, has_leader_line = True\<rparr>,
        \<lparr>number = 20, position = (24, 280), component_id = 1, has_leader_line = False\<rparr>]"
  by (simp add: place_labels_eq [OF blank_canvas] two_boxes_sorted two_boxes_placements
      del: placements.simps)

lemma numbers_increasing:
  assumes "1 \<le> (increment :: int)"
  shows "sorted_wrt (<) (map (\<lambda>k. start_number + int k * increment) [i ..< j])"
proof -
  have key: "a * increment < b * increment" if "a < b" for a b :: int
    using that assms by (intro mult_strict_right_mono) simp_all
  show ?thesis
    by (auto simp: sorted_wrt_map sorted_wrt_iff_nth_less intro!: key)
qed

lemma label_group_shape:
  "tag (label_group n p) = ''g''"
  "map tag (children (label_group n p)) = [''circle'', ''text'']"
  "etext (children (label_group n p) ! 1) = Some (str_int n)"
  by (cases p; simp add: label_group_def Let_def new_element_def append_child_def set_text_def)+

lemma leader_line_tag: "tag (leader_line rnd c p) = ''line''"
  by (simp add: leader_line_def new_element_def split: prod.splits)

lemma label_elements_tags:
  "map tag (label_elements rnd c l) = ''g'' # (if has_leader_line l then [''line''] else [])"
  by (simp add: label_elements_def label_group_shape leader_line_tag)

lemma concat_label_elements_tags:
  "length cs = length ls \<Longrightarrow>
   map tag (concat (map2 (label_elements rnd) cs ls)) =
   concat (map (\<lambda>l. ''g'' # (if has_leader_line l then [''line''] else [])) ls)"
proof (induction cs ls rule: list_induct2)
  case Nil
  then show ?case by simp
next
  case (Cons c cs l ls)
  then show ?case by (simp add: label_elements_tags)
qed

lemma euclid_sym: "euclid p q = euclid q p"
  by (simp add: euclid_def sq_dist_def power2_commute)

lemma euclid_less: "0 < c \<Longrightarrow> of_int (sq_dist p q) < c\<^sup>2 \<Longrightarrow> euclid p q < c"
  unfolding euclid_def by (rule real_less_lsqrt) simp_all

lemma euclid_greater: "0 \<le> c \<Longrightarrow> c\<^sup>2 < of_int (sq_dist p q) \<Longrightarrow> c < euclid p q"
  unfolding euclid_def by (rule real_less_rsqrt) simp_all

lemma spec_boxes_sorted:
  "sort_components_by_importance id
     [\<lparr>comp_id = 0, bbox = (50, 50, 40, 40), area = 1600\<rparr>,
      \<lparr>comp_id = 1, bbox = (400, 300, 60, 60), area = 3600\<rparr>] =
     [\<lparr>comp_id = 1, bbox = (400, 300, 60, 60), area = 3600\<rparr>,
      \<lparr>comp_id = 0, bbox = (50, 50, 40, 40), area = 1600\<rparr>]"
  by (simp add: sort_components_by_importance_def importance_score_def fl_def Let_def)

lemma spec_boxes_positions:
  "calculate_label_position id (400, 300, 60, 60) c [] (800, 600) = (475, 300)"
  "calculate_label_position id (50, 50, 40, 40) c [(475, 300)] (800, 600) = (105, 50)"
  by (simp_all add: calculate_label_position_eq [OF fl_ok_id] first_acceptable_def candidates_def
      within_bounds_def clear_of_def euclid_ge_25 sq_dist_def)

lemma spec_boxes_steps:
  "step_label id (800, 600) 10 10 True 0
     \<lparr>comp_id = 1, bbox = (400, 300, 60, 60), area = 3600\<rparr> [] =
   \<lparr>number = 10, position = (475, 300), component_id = 1, has_leader_line = True\<rparr>"
  "step_label id (800, 600) 10 10 True (Suc 0)
     \<lparr>comp_id = 0, bbox = (50, 50, 40, 40), area = 1600\<rparr> [(475, 300)] =
   \<lparr>number = 20, position = (105, 50), component_id = 0, has_leader_line = True\<rparr>"
  by (simp_all add: step_label_def Let_def calculate_center_def spec_boxes_positions
      distance_gt_30 [OF fl_ok_id] sq_dist_def)

lemma spec_boxes_placements:
  "placements id (800, 600) 10 10 True 0
     [\<lparr>comp_id = 1, bbox = (400, 300, 60, 60), area = 3600\<rparr>,
      \<lparr>comp_id = 0, bbox = (50, 50, 40, 40), area = 1600\<rparr>] [] =
   [\<lparr>number = 10, position = (475, 300), component_id = 1, has_leader_line = True\<rparr>,
    \<lparr>number = 20, position = (105, 50), component_id = 0, has_leader_line = True\<rparr>]"
  by (simp add: Let_def spec_boxes_steps)

lemma parse_svg_cases:
  "parse_svg fromstring svg_content = Some svg_root \<longleftrightarrow>
     fromstring svg_content = Some svg_root \<or>
     fromstring svg_content = None \<and> fromstring (replace_xmlns svg_content) = Some svg_root"
  by (auto simp: parse_svg_def split: option.splits)

lemma reserved_namespace_rewritten:
  "replace_xmlns ''<svg xmlns='http://www.w3.org/2000/xmlns/'><text>xmlns=1</text></svg>'' =
     ''<svg xmlnamespace='http://www.w3.org/2000/xmlns/'><text>xmlnamespace=1</text></svg>''"
  by simp

section \<open>The importance score in floats\<close>

text \<open>
  A rounding that satisfies \<open>fl_ok\<close> moves a value \<open>v\<close> with \<open>\<bar>v\<bar> \<le> 2 ^ (52 - K)\<close> by at
  most \<open>1 / 2 ^ K\<close>: \<open>v\<close> lies between two neighbouring multiples of \<open>1 / 2 ^ K\<close>, which are
  floats. Hence the computed importance score stays within \<open>1 / 2 ^ 18\<close> of the exact
  formula on the stated range, while two distinct values of the formula are at least
  \<open>1 / 10000\<close> apart.
\<close>

lemma rnd_near:
  assumes ok: "fl_ok rnd" and K: "K \<le> 64" and v: "\<bar>v\<bar> * 2 ^ K \<le> 2 ^ 52"
  shows "\<bar>rnd v - v\<bar> \<le> 1 / 2 ^ K"
proof -
  define m where "m = \<lfloor>v * 2 ^ K\<rfloor>"
  have m1: "of_int m \<le> v * 2 ^ K" and m2: "v * 2 ^ K < of_int m + 1"
    unfolding m_def by linarith+
  have av: "\<bar>v * 2 ^ K\<bar> \<le> 2 ^ 52" using v by (simp add: abs_mult)
  have "m \<le> \<lfloor>of_int (2 ^ 52) :: real\<rfloor>"
    unfolding m_def using av by (intro floor_mono) simp
  moreover have "\<lfloor>of_int (- (2 ^ 52)) :: real\<rfloor> \<le> m"
    unfolding m_def using av by (intro floor_mono) simp
  ultimately have "\<bar>m\<bar> \<le> 2 ^ 52"
    unfolding floor_of_int by simp
  then have mb: "\<bar>m\<bar> \<le> 2 ^ 53" "\<bar>m + 1\<bar> \<le> 2 ^ 53" by simp_all
  have d1: "rnd (of_int m / 2 ^ K) = of_int m / 2 ^ K"
    by (rule fl_ok_dyadic [OF ok mb(1) K])
  have d2: "rnd (of_int (m + 1) / 2 ^ K) = of_int (m + 1) / 2 ^ K"
    by (rule fl_ok_dyadic [OF ok mb(2) K])
  have lo: "of_int m / 2 ^ K \<le> v" using m1 by (simp add: field_simps)
  have hi: "v \<le> of_int (m + 1) / 2 ^ K" using m2 by (simp add: field_simps)
  have "of_int m / 2 ^ K \<le> rnd v"
    using fl_ok_mono [OF ok lo] d1 by simp
  moreover have "rnd v \<le> of_int (m + 1) / 2 ^ K"
    using fl_ok_mono [OF ok hi] d2 by simp
  moreover have "of_int (m + 1) / 2 ^ K = of_int m / 2 ^ K + (1 / 2 ^ K :: real)"
    by (simp add: field_simps)
  ultimately show ?thesis using lo hi by linarith
qed

lemma rnd_near_28: "fl_ok rnd \<Longrightarrow> \<bar>v\<bar> \<le> 2 ^ 24 \<Longrightarrow> \<bar>rnd v - v\<bar> \<le> 1 / 2 ^ 28"
  by (rule rnd_near [where K = 28]) simp_all

lemma rnd_near_19: "fl_ok rnd \<Longrightarrow> \<bar>v\<bar> \<le> 2 ^ 33 \<Longrightarrow> \<bar>rnd v - v\<bar> \<le> 1 / 2 ^ 19"
  by (rule rnd_near [where K = 19]) simp_all

lemma rnd_near_53: "fl_ok rnd \<Longrightarrow> \<bar>v\<bar> \<le> 1 / 2 \<Longrightarrow> \<bar>rnd v - v\<bar> \<le> 1 / 2 ^ 53"
  by (rule rnd_near [where K = 53]) simp_all

lemma abs_chain:
  fixes a b c :: real
  assumes "\<bar>a - b\<bar> \<le> e1" and "\<bar>b - c\<bar> \<le> e2"
  shows "\<bar>a - c\<bar> \<le> e1 + e2"
  using assms by linarith

lemma scaled_by_constant:
  fixes Y c c0 :: real
  assumes Y: "\<bar>Y\<bar> \<le> 2 ^ 24" and c: "\<bar>c - c0\<bar> \<le> 1 / 2 ^ 53"
  shows "\<bar>Y * c - c0 * Y\<bar> \<le> 1 / 2 ^ 29"
proof -
  have "\<bar>Y * c - c0 * Y\<bar> = \<bar>Y\<bar> * \<bar>c - c0\<bar>"
    by (simp add: abs_mult [symmetric] algebra_simps)
  also have "\<dots> \<le> 2 ^ 24 * (1 / 2 ^ 53)"
    using Y c by (intro mult_mono) simp_all
  finally show ?thesis by simp
qed

lemma importance_score_near:
  assumes ok: "fl_ok rnd" and rng: "score_range cmp"
  shows "\<bar>importance_score rnd cmp - importance_formula cmp\<bar> \<le> 1 / 2 ^ 18"
proof -
  obtain x y w h where bb: "bbox cmp = (x, y, w, h)" by (cases "bbox cmp")
  define X Y A :: real where "X = of_int x" and "Y = of_int y" and "A = of_int (area cmp)"
  from rng bb have xb: "\<bar>x\<bar> \<le> 2 ^ 24" and yb: "\<bar>y\<bar> \<le> 2 ^ 24"
    and ab: "\<bar>area cmp\<bar> \<le> 2 ^ 32"
    by (simp_all add: score_range_def)
  have Xb: "\<bar>X\<bar> \<le> 2 ^ 24"
  proof -
    have "(of_int \<bar>x\<bar> :: real) \<le> of_int (2 ^ 24)" using xb by (simp only: of_int_le_iff)
    then show ?thesis by (simp add: X_def)
  qed
  have Yb: "\<bar>Y\<bar> \<le> 2 ^ 24"
  proof -
    have "(of_int \<bar>y\<bar> :: real) \<le> of_int (2 ^ 24)" using yb by (simp only: of_int_le_iff)
    then show ?thesis by (simp add: Y_def)
  qed
  have Ab: "\<bar>A\<bar> \<le> 2 ^ 32"
  proof -
    have "(of_int \<bar>area cmp\<bar> :: real) \<le> of_int (2 ^ 32)" using ab by (simp only: of_int_le_iff)
    then show ?thesis by (simp add: A_def)
  qed
  have fx: "fl rnd x = X" unfolding fl_def X_def using xb by (intro fl_ok_int [OF ok]) simp
  have fy: "fl rnd y = Y" unfolding fl_def Y_def using yb by (intro fl_ok_int [OF ok]) simp
  have fa: "fl rnd (area cmp) = A" unfolding fl_def A_def using ab by (intro fl_ok_int [OF ok]) simp
  have f1000: "fl rnd 1000 = 1000" unfolding fl_def using fl_ok_int [OF ok, of 1000] by simp
  define c3 c1 where "c3 = rnd (3 / 10)" and "c1 = rnd (1 / 10)"
  have c3: "\<bar>c3 - 3 / 10\<bar> \<le> 1 / 2 ^ 53" unfolding c3_def by (rule rnd_near_53 [OF ok]) simp
  have c1: "\<bar>c1 - 1 / 10\<bar> \<le> 1 / 2 ^ 53" unfolding c1_def by (rule rnd_near_53 [OF ok]) simp
  define p1 p2 where "p1 = rnd (Y * c3)" and "p2 = rnd (X * c1)"
  have e1: "\<bar>Y * c3 - 3 / 10 * Y\<bar> \<le> 1 / 2 ^ 29" by (rule scaled_by_constant [OF Yb c3])
  have e2: "\<bar>X * c1 - 1 / 10 * X\<bar> \<le> 1 / 2 ^ 29" by (rule scaled_by_constant [OF Xb c1])
  have m1: "\<bar>Y * c3\<bar> \<le> 2 ^ 24" using e1 Yb unfolding abs_le_iff by (auto; linarith)
  have m2: "\<bar>X * c1\<bar> \<le> 2 ^ 24" using e2 Xb unfolding abs_le_iff by (auto; linarith)
  have r1: "\<bar>p1 - Y * c3\<bar> \<le> 1 / 2 ^ 28" unfolding p1_def by (rule rnd_near_28 [OF ok m1])
  have r2: "\<bar>p2 - X * c1\<bar> \<le> 1 / 2 ^ 28" unfolding p2_def by (rule rnd_near_28 [OF ok m2])
  define s where "s = rnd (p1 + p2)"
  have ms: "\<bar>p1 + p2\<bar> \<le> 2 ^ 24"
    using e1 e2 r1 r2 Xb Yb unfolding abs_le_iff by (auto; linarith)
  have rs: "\<bar>s - (p1 + p2)\<bar> \<le> 1 / 2 ^ 28" unfolding s_def by (rule rnd_near_28 [OF ok ms])
  have es: "\<bar>s - (3 / 10 * Y + 1 / 10 * X)\<bar> \<le> 1 / 2 ^ 25"
    using e1 e2 r1 r2 rs unfolding abs_le_iff by (auto; linarith)
  define q where "q = rnd (s / 1000)"
  have sb: "\<bar>s\<bar> \<le> 2 ^ 25" using rs ms unfolding abs_le_iff by (auto; linarith)
  have mq: "\<bar>s / 1000\<bar> \<le> 2 ^ 24" using sb unfolding abs_le_iff by (auto; linarith)
  have rq: "\<bar>q - s / 1000\<bar> \<le> 1 / 2 ^ 28" unfolding q_def by (rule rnd_near_28 [OF ok mq])
  have es': "\<bar>s / 1000 - (3 / 10 * Y + 1 / 10 * X) / 1000\<bar> \<le> 1 / 2 ^ 28"
  proof -
    have "\<bar>s / 1000 - (3 / 10 * Y + 1 / 10 * X) / 1000\<bar>
        = \<bar>s - (3 / 10 * Y + 1 / 10 * X)\<bar> / 1000"
      by (simp add: diff_divide_distrib [symmetric])
    also have "\<dots> \<le> (1 / 2 ^ 25) / 1000"
      using es by (intro divide_right_mono) simp_all
    also have "\<dots> \<le> 1 / 2 ^ 28" by simp
    finally show ?thesis .
  qed
  have eq: "\<bar>q - (3 / 10 * Y + 1 / 10 * X) / 1000\<bar> \<le> 1 / 2 ^ 27"
    using abs_chain [OF rq es'] by simp
  have mq': "\<bar>s / 1000\<bar> \<le> 2 ^ 16" using sb unfolding abs_le_iff by (auto; linarith)
  have qb: "\<bar>q\<bar> \<le> 2 ^ 24" using rq mq' unfolding abs_le_iff by (auto; linarith)
  have mr: "\<bar>A - q\<bar> \<le> 2 ^ 33" using Ab qb unfolding abs_le_iff by (auto; linarith)
  have rr: "\<bar>rnd (A - q) - (A - q)\<bar> \<le> 1 / 2 ^ 19" by (rule rnd_near_19 [OF ok mr])
  have score: "importance_score rnd cmp = rnd (A - q)"
    by (simp add: importance_score_def bb fx fy fa f1000 q_def s_def p1_def p2_def c3_def c1_def)
  have formula: "importance_formula cmp = A - (3 / 10 * Y + 1 / 10 * X) / 1000"
    by (simp add: importance_formula_def bb X_def Y_def A_def)
  define F where "F = (3 / 10 * Y + 1 / 10 * X) / 1000"
  have "\<bar>q - F\<bar> \<le> 1 / 2 ^ 27" using eq by (simp only: F_def)
  moreover have "\<bar>(A - q) - (A - F)\<bar> = \<bar>q - F\<bar>" by linarith
  ultimately have "\<bar>(A - q) - (A - F)\<bar> \<le> 1 / 2 ^ 27" by (simp only:)
  from abs_chain [OF rr this] have "\<bar>rnd (A - q) - (A - F)\<bar> \<le> 1 / 2 ^ 18" by simp
  then show ?thesis by (simp only: score formula F_def)
qed

lemma importance_formula_gap:
  fixes a b :: "'a component_scheme"
  assumes "importance_formula a < importance_formula b"
  shows "importance_formula a + 1 / 10000 \<le> importance_formula b"
proof -
  have rep: "importance_formula c =
      of_int (10000 * area c - 3 * fst (snd (bbox c)) - fst (bbox c)) / 10000"
    for c :: "'a component_scheme"
    by (cases "bbox c") (simp add: importance_formula_def field_simps)
  let ?n = "\<lambda>c :: 'a component_scheme. 10000 * area c - 3 * fst (snd (bbox c)) - fst (bbox c)"
  from assms have "(of_int (?n a) :: real) < of_int (?n b)"
    unfolding rep by (simp add: divide_less_cancel)
  then have "?n a < ?n b" by (simp only: of_int_less_iff)
  then have "?n a + 1 \<le> ?n b" by simp
  then have "(of_int (?n a + 1) :: real) \<le> of_int (?n b)" by (simp only: of_int_le_iff)
  then have "(of_int (?n a) :: real) / 10000 + 1 / 10000 \<le> of_int (?n b) / 10000"
    by (simp add: field_simps)
  then show ?thesis unfolding rep .
qed

lemma importance_score_order:
  fixes a b :: "'a component_scheme"
  assumes ok: "fl_ok rnd" and "score_range a" and "score_range b"
    and lt: "importance_formula a < importance_formula b"
  shows "importance_score rnd a < importance_score rnd b"
  using importance_score_near [OF ok assms(2)] importance_score_near [OF ok assms(3)]
    importance_formula_gap [OF lt]
  unfolding abs_le_iff by (auto; linarith)

lemma sort_components_descending_formula:
  assumes ok: "fl_ok rnd" and rng: "\<forall>c \<in> set components. score_range c"
  shows "sorted_wrt (\<lambda>a b. importance_formula b \<le> importance_formula a)
           (sort_components_by_importance rnd components)"
proof -
  have s: "set (sort_components_by_importance rnd components) = set components"
    by (simp add: sort_components_by_importance_def)
  show ?thesis
  proof (rule sorted_wrt_mono_rel [OF _ sort_components_descending [of rnd components]])
    fix a b
    assume "a \<in> set (sort_components_by_importance rnd components)"
      and "b \<in> set (sort_components_by_importance rnd components)"
      and le: "importance_score rnd b \<le> importance_score rnd a"
    then have "score_range a" "score_range b" using rng s by auto
    show "importance_formula b \<le> importance_formula a"
    proof (rule ccontr)
      assume "\<not> ?thesis"
      then have "importance_formula a < importance_formula b" by simp
      from importance_score_order [OF ok \<open>score_range a\<close> \<open>score_range b\<close> this] le
      show False by simp
    qed
  qed
qed

section \<open>Leader lines\<close>
















text \<open>
  Truncation can move the end away from distance 14: for a center \<open>(0, 0)\<close> and a label at
  \<open>(30, 40)\<close> the adjusted end is \<open>(21.6, 28.8)\<close>, the end drawn is \<open>(21, 28)\<close>, and that is 15
  from the label position.
\<close>

lemma drawn_end_truncated:
  "adjusted_end id (0, 0) (30, 40) = (108 / 5, 144 / 5)"
  "(py_trunc (108 / 5), py_trunc (144 / 5)) = (21, 28)"
  "euclid (21, 28) (30, 40) = 15"
proof -
  have s50: "sqrt 2500 = 50"
    using real_sqrt_abs [of 50] by (simp add: power2_eq_square)
  show "adjusted_end id (0, 0) (30, 40) = (108 / 5, 144 / 5)"
    by (simp add: adjusted_end_def fl_def Let_def circle_radius_def s50)
  show "(py_trunc (108 / 5), py_trunc (144 / 5)) = (21, 28)"
    by (simp add: py_trunc_def)
  show "euclid (21, 28) (30, 40) = 15"
    using real_sqrt_abs [of 15] by (simp add: euclid_def sq_dist_def power2_eq_square)
qed

section \<open>The detector's lazy load\<close>

lemma py_take_Nil: "py_take n [] = []"
  by (simp add: py_take_def)

lemma lazy_load_model_failure:
  assumes "\<not> initialized d" and "load (load_attempts d) = Inl e"
  shows "lazy_load_model load d = d\<lparr>initialized := False, load_attempts := Suc (load_attempts d)\<rparr>"
  using assms by (cases e) (simp_all add: lazy_load_model_def)

lemma detect_components_failure:
  assumes "\<not> initialized d" and "load (load_attempts d) = Inl e"
    and "decode image_bytes = Some img"
  shows "detect_components rnd decode load generate cv2_module d image_bytes min_area max_components =
         Inr (d\<lparr>initialized := False, load_attempts := Suc (load_attempts d)\<rparr>,
              py_take max_components
                (sort_key (\<lambda>x. - area x) (detect_with_fallback rnd cv2_module img min_area)))"
  using assms by (simp add: detect_components_def lazy_load_model_failure Let_def)

section \<open>The indentation pass\<close>

text \<open>
  The pass \<^verbatim>\<open>_indent_xml\<close> is idempotent on element trees. The optimisation itself works on
  strings, through the parser and the serialiser: without \<^verbatim>\<open>scour\<close> it returns its own
  output unchanged provided a parsed root has no tail and parsing a serialised tree gives
  the tree back without the root's tail.
\<close>

lemma blank_indent:
  assumes "is_space (CHR 0x0A)" and "is_space CHR '' ''"
  shows "blank is_space (Some (indent_str level))"
    and "blank is_space (Some (indent_str level @ ''  ''))"
  using assms by (induction level) (simp_all add: blank_def indent_str_def)

lemma indent_xml_tail_blank:
  assumes sp: "is_space (CHR 0x0A)" "is_space CHR '' ''"
  shows "blank is_space (etail (indent_xml is_space e level)) = blank is_space (etail e)"
  by (cases e) (auto simp: Let_def blank_indent [OF sp])

lemma indent_xml_set_tail:
  assumes "blank is_space (etail e)" and "blank is_space (Some s)"
  shows "indent_xml is_space (set_tail e s) (Suc level) = indent_xml is_space e (Suc level)"
  using assms by (cases e) (simp add: set_tail_def Let_def)

lemma indent_xml_idem:
  assumes sp: "is_space (CHR 0x0A)" "is_space CHR '' ''"
  shows "indent_xml is_space (indent_xml is_space e level) level = indent_xml is_space e level"
proof (induction e arbitrary: level)
  case (Element t a text0 tail0 cs)
  let ?I = "\<lambda>l c. indent_xml is_space c l"
  note bi = blank_indent [OF sp]
  show ?case
  proof (cases "cs = []")
    case True
    then show ?thesis by (simp add: bi)
  next
    case False
    define cs1 where "cs1 = map (?I (Suc level)) cs"
    define ch1 where "ch1 = (if blank is_space (etail (last cs1))
                             then set_tail (last cs1) (indent_str level) else last cs1)"
    define text1 where "text1 = (if blank is_space text0 then Some (indent_str level @ ''  '') else text0)"
    define tail1 where "tail1 = (if blank is_space tail0 then Some (indent_str level) else tail0)"
    have ne: "cs1 \<noteq> []" using False by (simp add: cs1_def)
    have e1: "?I level (Element t a text0 tail0 cs) = Element t a text1 tail1 (butlast cs1 @ [ch1])"
      using False by (simp add: Let_def cs1_def ch1_def text1_def tail1_def)
    have idem: "?I (Suc level) c = c" if "c \<in> set cs1" for c
      using that Element.IH by (auto simp: cs1_def)
    have "map (?I (Suc level)) (butlast cs1) = butlast cs1"
      by (rule map_idI) (auto dest: in_set_butlastD intro: idem)
    moreover have "?I (Suc level) ch1 = last cs1"
    proof (cases "blank is_space (etail (last cs1))")
      case True
      then have "?I (Suc level) ch1 = ?I (Suc level) (last cs1)"
        by (simp add: ch1_def indent_xml_set_tail bi)
      then show ?thesis using idem ne by simp
    next
      case False
      then show ?thesis using idem ne by (simp add: ch1_def)
    qed
    ultimately have cs2: "map (?I (Suc level)) (butlast cs1 @ [ch1]) = cs1"
      using ne by simp
    have text0: "(if blank is_space text1 then Some (indent_str level @ ''  '') else text1) = text1"
      by (simp add: text1_def bi)
    have tail0: "(if blank is_space tail1 then Some (indent_str level) else tail1) = tail1"
      by (simp add: tail1_def bi)
    have "?I level (Element t a text1 tail1 (butlast cs1 @ [ch1])) =
          Element t a text1 tail1 (butlast cs1 @ [ch1])"
      using cs2 text0 tail0 by (simp add: Let_def ch1_def del: map_append)
    then show ?thesis by (simp only: e1)
  qed
qed


lemma indent_xml_root_tail:
  assumes sp: "is_space (CHR 0x0A)" "is_space CHR '' ''" and "etail e = None"
  shows "indent_xml is_space
           (Element (tag (indent_xml is_space e 0)) (attrib (indent_xml is_space e 0))
              (etext (indent_xml is_space e 0)) None (children (indent_xml is_space e 0))) 0 =
         indent_xml is_space e 0"
proof -
  obtain t a text0 tail0 cs where e: "indent_xml is_space e 0 = Element t a text0 tail0 cs"
    by (cases "indent_xml is_space e 0")
  have i: "indent_xml is_space (Element t a text0 tail0 cs) 0 = Element t a text0 tail0 cs"
    using indent_xml_idem [OF sp, of e 0] e by simp
  have tl: "cs \<noteq> [] \<Longrightarrow> tail0 = Some (indent_str 0)" "cs = [] \<Longrightarrow> tail0 = None"
    using e assms(3) by (cases e; auto simp: Let_def blank_def split: if_splits)+
  show ?thesis
  proof (cases "cs = []")
    case True
    with tl e show ?thesis by simp
  next
    case False
    have b: "blank is_space tail0" using tl(1) [OF False] blank_indent(1) [OF sp] by simp
    from i False b tl(1) [OF False] show ?thesis
      by (simp add: e Let_def blank_def)
  qed
qed

lemma basic_svg_optimization_idem:
  assumes sp: "is_space (CHR 0x0A)" "is_space CHR '' ''"
    and parsed: "\<And>s r. fromstring s = Some r \<Longrightarrow> etail r = None"
    and roundtrip: "\<And>r. fromstring (tostring r) =
                      Some (Element (tag r) (attrib r) (etext r) None (children r))"
    and first: "basic_svg_optimization fromstring tostring is_space svg_content = Inr out"
  shows "basic_svg_optimization fromstring tostring is_space out = Inr out"
proof -
  from first obtain r where r: "fromstring svg_content = Some r"
    and out: "out = tostring (indent_xml is_space r 0)"
    by (auto simp: basic_svg_optimization_def split: option.splits)
  have "etail r = None" using parsed [OF r] .
  from indent_xml_root_tail [OF sp this] show ?thesis
    by (simp add: basic_svg_optimization_def out roundtrip)
qed

section \<open>Properties of the annotation service\<close>

text \<open>
  Claim C3. Whenever the document parses and its dimensions are read, the call returns,
  with one label for every component. The label of the component at rank \<open>k\<close> is the first
  of that component's seven candidates (right-top, right-middle, left-top, top-center,
  bottom-center, right-bottom, left-middle) that lies within the canvas bounds (\<open>x \<ge> 10\<close>,
  \<open>x \<le> width - 30\<close>, \<open>y \<ge> 15\<close>, \<open>y \<le> height - 10\<close>) and is at Euclidean distance at least 25
  from the labels of the ranks before \<open>k\<close>; when no candidate satisfies both, it is the first
  candidate. In either case it is one of the seven candidates.
\<close>

theorem labels_placed_at_first_acceptable:
  assumes ok: "fl_ok rnd"
    and parsed: "parse_svg fromstring svg_content = Some svg_root"
    and wd: "get_int int_of_str svg_root ''width'' 800 = Some width"
    and ht: "get_int int_of_str svg_root ''height'' 600 = Some height"
  shows "\<exists>out labels.
           place_labels_on_svg fromstring tostring int_of_str rnd svg_content components
             start_number increment add_leader_lines = Inr (out, labels)
         \<and> length labels = length components
         \<and> (\<forall>k < length components.
               component_id (labels ! k) =
                 comp_id (sort_components_by_importance rnd components ! k)
             \<and> position (labels ! k) =
                 first_acceptable (width, height) (map position (take k labels))
                   (candidates (bbox (sort_components_by_importance rnd components ! k)))
             \<and> position (labels ! k) \<in>
                 set (candidates (bbox (sort_components_by_importance rnd components ! k))))
         \<and> candidates (x, y, w, h) =
             [(x + w + 15, y), (x + w + 15, y + h div 2), (x - 45, y),
              (x + w div 2 - 10, y - 30), (x + w div 2 - 10, y + h + 15),
              (x + w + 15, y + h), (x - 45, y + h div 2)]"
proof -
  let ?cs = "sort_components_by_importance rnd components"
  define labels where
    "labels = placements rnd (width, height) start_number increment add_leader_lines 0 ?cs []"
  obtain out where r: "place_labels_on_svg fromstring tostring int_of_str rnd svg_content
      components start_number increment add_leader_lines = Inr (out, labels)"
    using place_labels_eq [OF parsed wd ht] labels_def by blast
  have len: "length labels = length components"
    by (simp add: labels_def placements_length sort_components_length)
  have step: "component_id (labels ! k) = comp_id (?cs ! k)
      \<and> position (labels ! k) =
            first_acceptable (width, height) (map position (take k labels))
              (candidates (bbox (?cs ! k)))
      \<and> position (labels ! k) \<in> set (candidates (bbox (?cs ! k)))"
    if k: "k < length components" for k
  proof -
    have kl: "k < length ?cs" using k by (simp add: sort_components_length)
    have lk: "labels ! k = step_label rnd (width, height) start_number increment
          add_leader_lines k (?cs ! k) (map position (take k labels))"
      using placements_nth [OF kl, of rnd "(width, height)" start_number increment
          add_leader_lines 0 "[]"] by (simp add: labels_def)
    have pos: "position (labels ! k) =
            first_acceptable (width, height) (map position (take k labels))
              (candidates (bbox (?cs ! k)))"
      by (subst lk) (simp add: step_label_sel calculate_label_position_eq [OF ok])
    have cid: "component_id (labels ! k) = comp_id (?cs ! k)"
      by (subst lk) (simp add: step_label_sel)
    let ?cands = "candidates (bbox (?cs ! k))"
    let ?P = "\<lambda>q. within_bounds (width, height) q \<and> clear_of (map position (take k labels)) q"
    have ne: "?cands \<noteq> []" using candidates_length [of "bbox (?cs ! k)"] by auto
    have "first_acceptable (width, height) (map position (take k labels)) ?cands \<in> set ?cands"
    proof (cases "find ?P ?cands")
      case None
      then show ?thesis using ne by (simp add: first_acceptable_def)
    next
      case (Some q)
      then have "q \<in> set ?cands" by (auto simp: find_Some_iff)
      with Some show ?thesis by (simp add: first_acceptable_def)
    qed
    with pos cid show ?thesis by simp
  qed
  have lst: "candidates (x, y, w, h) =
             [(x + w + 15, y), (x + w + 15, y + h div 2), (x - 45, y),
              (x + w div 2 - 10, y - 30), (x + w div 2 - 10, y + h + 15),
              (x + w + 15, y + h), (x - 45, y + h div 2)]"
    by (simp add: candidates_def Let_def)
  show ?thesis using r len step lst by blast
qed

text \<open>
  An instance: two boxes on the blank 800 x 600 canvas. The smaller one has no acceptable
  candidate and gets its first candidate.
\<close>

theorem labels_placed_at_first_acceptable_witness:
  "fl_ok id \<and>
   (\<exists>out labels.
      place_labels_on_svg (\<lambda>s. Some (Element ''svg'' [] None None [])) id (\<lambda>s. None) id ''<svg/>''
        [\<lparr>comp_id = 1, bbox = (5, 280, 4, 4), area = 16\<rparr>,
         \<lparr>comp_id = 0, bbox = (0, 300, 9, 280), area = 2520\<rparr>] 10 10 True = Inr (out, labels)
      \<and> length labels = 2
      \<and> position (labels ! 0) = (24, 300) \<and> position (labels ! 1) = (24, 280))"
proof -
  let ?comps = "[\<lparr>comp_id = 1 :: int, bbox = (5, 280, 4, 4), area = 16\<rparr>,
         \<lparr>comp_id = 0, bbox = (0, 300, 9, 280), area = 2520\<rparr>]"
  from labels_placed_at_first_acceptable [OF fl_ok_id blank_canvas,
      of id ?comps 10 10 True 0 0 0 0]
  obtain out labels where
    r: "place_labels_on_svg (\<lambda>s. Some (Element ''svg'' [] None None [])) id (\<lambda>s. None) id
          ''<svg/>'' ?comps 10 10 True = Inr (out, labels)"
    and len: "length labels = 2"
    and st: "\<forall>k < 2. position (labels ! k) =
                 first_acceptable (800, 600) (map position (take k labels))
                   (candidates (bbox (sort_components_by_importance id ?comps ! k)))"
    by auto
  from len obtain l0 l1 where ls: "labels = [l0, l1]"
    by (cases labels; cases "tl labels") auto
  have p0: "position l0 = (24, 300)"
    using st [rule_format, of 0]
    by (simp add: ls two_boxes_sorted first_acceptable_def candidates_def within_bounds_def
        clear_of_def)
  have p1: "position l1 = (24, 280)"
    using st [rule_format, of 1]
    by (simp add: ls p0 two_boxes_sorted first_acceptable_def candidates_def within_bounds_def
        clear_of_def euclid_ge_25 sq_dist_def)
  show ?thesis
    using r ls p0 p1 fl_ok_id by auto
qed

text \<open>
  Claim C1. A successful call of \<^verbatim>\<open>place_labels_on_svg\<close> returns exactly one label per
  component: the list of labels is as long as the list of components, and the labels carry,
  in order, the ids of the components in importance order, so the ids of the labels are
  the ids of the components, each as often as it occurs.
\<close>

theorem one_label_per_component:
  assumes "place_labels_on_svg fromstring tostring int_of_str rnd svg_content components
             start_number increment add_leader_lines = Inr (out, labels)"
  shows "length labels = length components
         \<and> map component_id labels = map comp_id (sort_components_by_importance rnd components)
         \<and> mset (map component_id labels) = mset (map comp_id components)"
proof -
  from place_labels_success [OF assms] obtain svg_root width height where
    l: "labels = placements rnd (width, height) start_number increment add_leader_lines 0
                   (sort_components_by_importance rnd components) []"
    by blast
  have len: "length labels = length components"
    by (simp add: l placements_length sort_components_length)
  have ids: "map component_id labels = map comp_id (sort_components_by_importance rnd components)"
    by (simp add: l placements_component_id)
  have "mset (map comp_id (sort_components_by_importance rnd components)) =
        mset (map comp_id components)"
    by (simp add: sort_components_mset)
  with len ids show ?thesis by simp
qed

text \<open>An instance: two boxes on the blank 800 x 600 canvas give two labels.\<close>

theorem one_label_per_component_witness:
  "\<exists>out labels.
     place_labels_on_svg (\<lambda>s. Some (Element ''svg'' [] None None [])) id (\<lambda>s. None) id ''<svg/>''
       [\<lparr>comp_id = 1, bbox = (5, 280, 4, 4), area = 16\<rparr>,
        \<lparr>comp_id = 0, bbox = (0, 300, 9, 280), area = 2520\<rparr>] 10 10 True = Inr (out, labels)
     \<and> length labels = 2 \<and> map component_id labels = [0, 1]"
proof -
  let ?call = "place_labels_on_svg (\<lambda>s. Some (Element ''svg'' [] None None [])) id (\<lambda>s. None) id
       ''<svg/>'' [\<lparr>comp_id = 1, bbox = (5, 280, 4, 4), area = 16\<rparr>,
        \<lparr>comp_id = 0, bbox = (0, 300, 9, 280), area = 2520\<rparr>] 10 10 True"
  obtain out labels where r: "?call = Inr (out, labels)"
    using place_labels_eq [OF blank_canvas] by blast
  from one_label_per_component [OF r] show ?thesis
    using r by (simp add: two_boxes_sorted)
qed

text \<open>
  Claim C2. The components are ordered by the importance score
  \<open>area - (0.3 y + 0.1 x) / 1000\<close>, descending, and the component at position \<open>i\<close> of that
  order receives the label number \<open>start_number + i * increment\<close>; for an increment of at
  least 1 the numbers are strictly increasing along the order, hence pairwise distinct.
  The order is descending in the score as the code computes it, for every rounding; with
  exact arithmetic the score is the stated formula. In floats, for every rounding that
  satisfies \<open>fl_ok\<close> and components whose corners are at most \<open>2 ^ 24\<close> and whose areas are at
  most \<open>2 ^ 32\<close> in absolute value: the computed score of each component is within
  \<open>1 / 2 ^ 18\<close> of the formula, two components whose formula values differ are ordered by
  the computed score as by the formula, and the order the code produces is descending in
  the formula. Components with equal formula values may come in either order.
\<close>

theorem labels_numbered_in_importance_order:
  assumes "place_labels_on_svg fromstring tostring int_of_str rnd svg_content components
             start_number increment add_leader_lines = Inr (out, labels)"
  shows "map number labels =
           map (\<lambda>i. start_number + int i * increment) [0 ..< length components]
         \<and> map component_id labels = map comp_id (sort_components_by_importance rnd components)
         \<and> sorted_wrt (\<lambda>a b. importance_score rnd b \<le> importance_score rnd a)
               (sort_components_by_importance rnd components)
         \<and> mset (sort_components_by_importance rnd components) = mset components
         \<and> importance_score id \<lparr>comp_id = n, bbox = (x, y, w, h), area = a\<rparr> =
               of_int a - (of_int y * (3 / 10) + of_int x * (1 / 10)) / 1000
         \<and> (1 \<le> increment \<longrightarrow>
               sorted_wrt (<) (map number labels) \<and> distinct (map number labels))
         \<and> (fl_ok rnd \<and> (\<forall>c \<in> set components. score_range c) \<longrightarrow>
               (\<forall>c \<in> set components.
                  \<bar>importance_score rnd c - importance_formula c\<bar> \<le> 1 / 2 ^ 18)
               \<and> (\<forall>c \<in> set components. \<forall>c' \<in> set components.
                    importance_formula c < importance_formula c' \<longrightarrow>
                    importance_score rnd c < importance_score rnd c')
               \<and> sorted_wrt (\<lambda>a b. importance_formula b \<le> importance_formula a)
                    (sort_components_by_importance rnd components))"
proof -
  from place_labels_success [OF assms] obtain svg_root width height where
    l: "labels = placements rnd (width, height) start_number increment add_leader_lines 0
                   (sort_components_by_importance rnd components) []"
    by blast
  have nums: "map number labels =
              map (\<lambda>i. start_number + int i * increment) [0 ..< length components]"
    by (simp add: l placements_number sort_components_length)
  have ids: "map component_id labels = map comp_id (sort_components_by_importance rnd components)"
    by (simp add: l placements_component_id)
  have score: "importance_score id \<lparr>comp_id = n, bbox = (x, y, w, h), area = a\<rparr> =
               of_int a - (of_int y * (3 / 10) + of_int x * (1 / 10)) / 1000"
    by (simp add: importance_score_def fl_def)
  have incr: "sorted_wrt (<) (map number labels) \<and> distinct (map number labels)"
    if "1 \<le> increment"
  proof -
    have "sorted_wrt (<) (map number labels)"
      unfolding nums using that by (rule numbers_increasing)
    then show ?thesis
      by (simp add: strict_sorted_iff)
  qed
  have floats:
    "(\<forall>c \<in> set components. \<bar>importance_score rnd c - importance_formula c\<bar> \<le> 1 / 2 ^ 18)
     \<and> (\<forall>c \<in> set components. \<forall>c' \<in> set components.
          importance_formula c < importance_formula c' \<longrightarrow>
          importance_score rnd c < importance_score rnd c')
     \<and> sorted_wrt (\<lambda>a b. importance_formula b \<le> importance_formula a)
          (sort_components_by_importance rnd components)"
    if ok: "fl_ok rnd" and rng: "\<forall>c \<in> set components. score_range c"
  proof (intro conjI ballI impI)
    fix c assume "c \<in> set components"
    with rng have "score_range c" by simp
    then show "\<bar>importance_score rnd c - importance_formula c\<bar> \<le> 1 / 2 ^ 18"
      by (rule importance_score_near [OF ok])
  next
    fix c c' assume "c \<in> set components" and "c' \<in> set components"
      and lt: "importance_formula c < importance_formula c'"
    with rng have "score_range c" and "score_range c'" by simp_all
    then show "importance_score rnd c < importance_score rnd c'"
      using lt by (rule importance_score_order [OF ok])
  next
    show "sorted_wrt (\<lambda>a b. importance_formula b \<le> importance_formula a)
            (sort_components_by_importance rnd components)"
      by (rule sort_components_descending_formula [OF ok rng])
  qed
  show ?thesis
    using nums ids score incr floats sort_components_descending [of rnd components]
      sort_components_mset [of rnd components]
    by blast
qed

text \<open>
  An instance: the larger box is numbered 10 and the smaller one 20; the formula gives
  \<open>2520 - 9 / 100\<close> for the first and \<open>16 - 169 / 2000\<close> for the second.
\<close>

theorem labels_numbered_in_importance_order_witness:
  "\<exists>out labels.
     place_labels_on_svg (\<lambda>s. Some (Element ''svg'' [] None None [])) id (\<lambda>s. None) id ''<svg/>''
       [\<lparr>comp_id = 1, bbox = (5, 280, 4, 4), area = 16\<rparr>,
        \<lparr>comp_id = 0, bbox = (0, 300, 9, 280), area = 2520\<rparr>] 10 10 True = Inr (out, labels)
     \<and> (1 :: int) \<le> 10 \<and> map number labels = [10, 20] \<and> map component_id labels = [0, 1]
     \<and> distinct (map number labels)
     \<and> fl_ok id
     \<and> score_range \<lparr>comp_id = 1, bbox = (5, 280, 4, 4), area = 16\<rparr>
     \<and> score_range \<lparr>comp_id = 0, bbox = (0, 300, 9, 280), area = 2520\<rparr>
     \<and> importance_formula \<lparr>comp_id = 0, bbox = (0, 300, 9, 280), area = 2520\<rparr> = 2520 - 9 / 100
     \<and> importance_formula \<lparr>comp_id = 1, bbox = (5, 280, 4, 4), area = 16\<rparr> = 16 - 169 / 2000
     \<and> importance_formula \<lparr>comp_id = 1, bbox = (5, 280, 4, 4), area = 16\<rparr>
         \<le> importance_formula \<lparr>comp_id = 0, bbox = (0, 300, 9, 280), area = 2520\<rparr>
     \<and> \<bar>importance_score id \<lparr>comp_id = 0, bbox = (0, 300, 9, 280), area = 2520\<rparr>
          - importance_formula \<lparr>comp_id = 0, bbox = (0, 300, 9, 280), area = 2520\<rparr>\<bar> \<le> 1 / 2 ^ 18"
proof -
  let ?call = "place_labels_on_svg (\<lambda>s. Some (Element ''svg'' [] None None [])) id (\<lambda>s. None) id
       ''<svg/>'' [\<lparr>comp_id = 1, bbox = (5, 280, 4, 4), area = 16\<rparr>,
        \<lparr>comp_id = 0, bbox = (0, 300, 9, 280), area = 2520\<rparr>] 10 10 True"
  obtain out labels where r: "?call = Inr (out, labels)"
    using place_labels_eq [OF blank_canvas] by blast
  have rng: "score_range \<lparr>comp_id = 1, bbox = (5, 280, 4, 4), area = 16\<rparr>"
    "score_range \<lparr>comp_id = 0, bbox = (0, 300, 9, 280), area = 2520\<rparr>"
    by (simp_all add: score_range_def)
  have vals:
    "importance_formula \<lparr>comp_id = 0, bbox = (0, 300, 9, 280), area = 2520\<rparr> = 2520 - 9 / 100"
    "importance_formula \<lparr>comp_id = 1, bbox = (5, 280, 4, 4), area = 16\<rparr> = 16 - 169 / 2000"
    by (simp_all add: importance_formula_def)
  from labels_numbered_in_importance_order [OF r] have
    "map number labels = [10, 20]"
    "map component_id labels = [0, 1]"
    "distinct (map number labels)"
    by (simp_all add: two_boxes_sorted)
  moreover have
    "importance_formula \<lparr>comp_id = 1, bbox = (5, 280, 4, 4), area = 16\<rparr>
       \<le> importance_formula \<lparr>comp_id = 0, bbox = (0, 300, 9, 280), area = 2520\<rparr>"
    "\<bar>importance_score id \<lparr>comp_id = 0, bbox = (0, 300, 9, 280), area = 2520\<rparr>
        - importance_formula \<lparr>comp_id = 0, bbox = (0, 300, 9, 280), area = 2520\<rparr>\<bar> \<le> 1 / 2 ^ 18"
  proof -
    let ?boxes = "[\<lparr>comp_id = 1, bbox = (5, 280, 4, 4), area = 16\<rparr>,
                   \<lparr>comp_id = 0, bbox = (0, 300, 9, 280), area = 2520\<rparr>]"
    have pre: "fl_ok id \<and> (\<forall>c \<in> set ?boxes. score_range c)"
      using fl_ok_id rng by simp
    have "fl_ok id \<and> (\<forall>c \<in> set ?boxes. score_range c) \<longrightarrow>
            (\<forall>c \<in> set ?boxes.
               \<bar>importance_score id c - importance_formula c\<bar> \<le> 1 / 2 ^ 18)
            \<and> (\<forall>c \<in> set ?boxes. \<forall>c' \<in> set ?boxes.
                 importance_formula c < importance_formula c' \<longrightarrow>
                 importance_score id c < importance_score id c')
            \<and> sorted_wrt (\<lambda>a b. importance_formula b \<le> importance_formula a)
                 (sort_components_by_importance id ?boxes)"
      using labels_numbered_in_importance_order [OF r] by blast
    with pre have
      near: "\<forall>c \<in> set ?boxes. \<bar>importance_score id c - importance_formula c\<bar> \<le> 1 / 2 ^ 18"
      and desc: "sorted_wrt (\<lambda>a b. importance_formula b \<le> importance_formula a)
                   (sort_components_by_importance id ?boxes)"
      by blast+
    from desc show
      "importance_formula \<lparr>comp_id = 1, bbox = (5, 280, 4, 4), area = 16\<rparr>
         \<le> importance_formula \<lparr>comp_id = 0, bbox = (0, 300, 9, 280), area = 2520\<rparr>"
      unfolding two_boxes_sorted by simp
    from near show
      "\<bar>importance_score id \<lparr>comp_id = 0, bbox = (0, 300, 9, 280), area = 2520\<rparr>
          - importance_formula \<lparr>comp_id = 0, bbox = (0, 300, 9, 280), area = 2520\<rparr>\<bar> \<le> 1 / 2 ^ 18"
      by (rule bspec) simp
  qed
  moreover have "(1 :: int) \<le> 10" by simp
  ultimately show ?thesis using r fl_ok_id rng vals
    by (intro exI [of _ out] exI [of _ labels] conjI)
qed




text \<open>
  Claim C8, as stated: every element of the input document is present, unmodified, in the
  output. This fails on the retry after a \<^verbatim>\<open>ParseError\<close>: the code then parses the text with
  every \<^verbatim>\<open>xmlns=\<close> replaced by \<^verbatim>\<open>xmlnamespace=\<close>, wherever it stands. The document below
  binds the default namespace to a reserved name, which the parser refuses; the rewritten
  text parses, and with no component to label the output is the rewritten document: its
  root has an attribute \<^verbatim>\<open>xmlnamespace\<close> and its \<^verbatim>\<open>text\<close> element reads \<^verbatim>\<open>xmlnamespace=1\<close>, where
  the input has \<^verbatim>\<open>xmlns=1\<close> and nowhere the word \<^verbatim>\<open>xmlnamespace\<close>.
\<close>

theorem retry_rewrites_document_counterexample:
  "place_labels_on_svg
     (\<lambda>s. if s = ''<svg xmlnamespace='http://www.w3.org/2000/xmlns/'><text>xmlnamespace=1</text></svg>''
          then Some (Element ''svg'' [(''xmlnamespace'', ''http://www.w3.org/2000/xmlns/'')] None None
                       [Element ''text'' [] (Some ''xmlnamespace=1'') None []])
          else None)
     id (\<lambda>s. None) id
     ''<svg xmlns='http://www.w3.org/2000/xmlns/'><text>xmlns=1</text></svg>''
     ([] :: component list) 10 10 True =
   Inr (Element ''svg'' [(''xmlnamespace'', ''http://www.w3.org/2000/xmlns/'')] None None
          [Element ''text'' [] (Some ''xmlnamespace=1'') None []], [])
   \<and> sublist ''<text>xmlns=1</text>''
       ''<svg xmlns='http://www.w3.org/2000/xmlns/'><text>xmlns=1</text></svg>''
   \<and> \<not> sublist ''xmlnamespace''
       ''<svg xmlns='http://www.w3.org/2000/xmlns/'><text>xmlns=1</text></svg>''"
proof -
  let ?s = "''<svg xmlns='http://www.w3.org/2000/xmlns/'><text>xmlns=1</text></svg>''"
  let ?s' = "''<svg xmlnamespace='http://www.w3.org/2000/xmlns/'><text>xmlnamespace=1</text></svg>''"
  let ?T = "Element ''svg'' [(''xmlnamespace'', ''http://www.w3.org/2000/xmlns/'')] None None
                       [Element ''text'' [] (Some ''xmlnamespace=1'') None []]"
  let ?f = "\<lambda>s. if s = ?s' then Some ?T else None"
  have p: "parse_svg ?f ?s = Some ?T"
    by (simp add: parse_svg_def reserved_namespace_rewritten del: replace_xmlns.simps)
  have w: "get_int (\<lambda>s. None) ?T ''width'' 800 = Some 800"
    and h: "get_int (\<lambda>s. None) ?T ''height'' 600 = Some 600"
    by (simp_all add: get_int_def)
  have c: "place_labels_on_svg ?f id (\<lambda>s. None) id ?s ([] :: component list) 10 10 True
           = Inr (?T, [])"
    by (simp add: place_labels_eq [OF p w h] sort_components_by_importance_def extend_def)
  have s1: "sublist ''<text>xmlns=1</text>'' ?s"
    by (simp add: sublist_Cons_right)
  have s2: "\<not> sublist ''xmlnamespace'' ?s"
    by (simp add: sublist_Cons_right)
  show ?thesis using c s1 s2 by simp
qed

text \<open>
  Claim C8, amended: the annotation only extends the document it has parsed. That
  document is the input when the input parses as given, and otherwise the input with every
  \<^verbatim>\<open>xmlns=\<close> replaced by \<^verbatim>\<open>xmlnamespace=\<close>. The output is the serialisation of its root with new
  elements appended to the children: the root's tag, attributes, text and tail and all
  its former children are unchanged and in their order. The new elements are, per label in
  order, one group \<^verbatim>\<open>g\<close> (a circle and a text holding the number) followed by one \<^verbatim>\<open>line\<close>
  when the label has a leader line.
\<close>

theorem annotate_extends_parsed_document:
  assumes "place_labels_on_svg fromstring tostring int_of_str rnd svg_content components
             start_number increment add_leader_lines = Inr (out, labels)"
  shows "\<exists>svg_root new.
           (fromstring svg_content = Some svg_root
            \<or> fromstring svg_content = None
              \<and> fromstring (replace_xmlns svg_content) = Some svg_root)
         \<and> out = tostring (Element (tag svg_root) (attrib svg_root) (etext svg_root)
                     (etail svg_root) (children svg_root @ new))
         \<and> new = concat (map2 (label_elements rnd)
                     (sort_components_by_importance rnd components) labels)
         \<and> map tag new =
             concat (map (\<lambda>l. ''g'' # (if has_leader_line l then [''line''] else [])) labels)
         \<and> length (filter (\<lambda>e. tag e = ''g'') new) = length labels
         \<and> length (filter (\<lambda>e. tag e = ''line'') new) = length (filter has_leader_line labels)
         \<and> map tag (children (label_group n p)) = [''circle'', ''text'']
         \<and> etext (children (label_group n p) ! 1) = Some (str_int n)"
proof -
  from place_labels_success [OF assms] obtain svg_root width height where
    p: "parse_svg fromstring svg_content = Some svg_root"
    and l: "labels = placements rnd (width, height) start_number increment add_leader_lines 0
                   (sort_components_by_importance rnd components) []"
    and o: "out = tostring (extend svg_root
                   (concat (map2 (label_elements rnd)
                      (sort_components_by_importance rnd components) labels)))"
    by blast
  let ?new = "concat (map2 (label_elements rnd)
                (sort_components_by_importance rnd components) labels)"
  have src: "fromstring svg_content = Some svg_root
            \<or> fromstring svg_content = None
              \<and> fromstring (replace_xmlns svg_content) = Some svg_root"
    using p by (simp add: parse_svg_cases)
  have len: "length (sort_components_by_importance rnd components) = length labels"
    by (simp add: l placements_length)
  have tags: "map tag ?new =
      concat (map (\<lambda>l. ''g'' # (if has_leader_line l then [''line''] else [])) labels)"
    by (rule concat_label_elements_tags [OF len])
  have cnt: "length (filter (\<lambda>t. t = ''g'')
                (concat (map (\<lambda>l. ''g'' # (if has_leader_line l then [''line''] else [])) ls)))
             = length ls
           \<and> length (filter (\<lambda>t. t = ''line'')
                (concat (map (\<lambda>l. ''g'' # (if has_leader_line l then [''line''] else [])) ls)))
             = length (filter has_leader_line ls)" for ls :: "label list"
    by (induction ls) simp_all
  have f: "length (filter (\<lambda>e. tag e = t) ?new) = length (filter (\<lambda>s. s = t) (map tag ?new))" for t
    by (simp add: filter_map comp_def)
  have g: "length (filter (\<lambda>e. tag e = ''g'') ?new) = length labels"
    and ln: "length (filter (\<lambda>e. tag e = ''line'') ?new) = length (filter has_leader_line labels)"
    unfolding f tags using cnt [of labels] by simp_all
  have o': "out = tostring (Element (tag svg_root) (attrib svg_root) (etext svg_root)
                     (etail svg_root) (children svg_root @ ?new))"
    using o by (simp add: extend_def)
  show ?thesis
    by (rule exI [of _ svg_root], rule exI [of _ ?new])
      (use src o' tags g ln label_group_shape(2,3) [of n p] in simp)
qed

text \<open>An instance: a document with one path keeps it in front of the appended group.\<close>

theorem annotate_extends_parsed_document_witness:
  "\<exists>out labels.
     place_labels_on_svg
       (\<lambda>s. if s = ''<svg><path/></svg>''
            then Some (Element ''svg'' [] None None [Element ''path'' [] None None []])
            else None)
       id (\<lambda>s. None) id ''<svg><path/></svg>''
       [\<lparr>comp_id = 0, bbox = (20, 20, 10, 10), area = 100\<rparr>] 10 10 False = Inr (out, labels)
     \<and> tag out = ''svg'' \<and> attrib out = []
     \<and> map tag (children out) = [''path'', ''g'']
     \<and> children out ! 0 = Element ''path'' [] None None []"
proof -
  let ?root = "Element ''svg'' [] None None [Element ''path'' [] None None []]"
  let ?f = "\<lambda>s. if s = ''<svg><path/></svg>'' then Some ?root else None"
  let ?call = "place_labels_on_svg ?f id (\<lambda>s. None) id ''<svg><path/></svg>''
       [\<lparr>comp_id = 0 :: int, bbox = (20, 20, 10, 10), area = 100\<rparr>] 10 10 False"
  have p: "parse_svg ?f ''<svg><path/></svg>'' = Some ?root"
    by (simp add: parse_svg_def)
  have w: "get_int (\<lambda>s. None) ?root ''width'' 800 = Some 800"
    and h: "get_int (\<lambda>s. None) ?root ''height'' 600 = Some 600"
    by (simp_all add: get_int_def)
  obtain out labels where r: "?call = Inr (out, labels)"
    using place_labels_eq [OF p w h] by blast
  from place_labels_success [OF r] have len: "length labels = 1"
    by (auto simp: placements_length sort_components_length)
  then obtain l where ls: "labels = [l]"
    by (cases labels) simp_all
  have nl: "\<not> has_leader_line l"
    using place_labels_success [OF r] ls
    by (auto simp: sort_components_by_importance_def Let_def step_label_def)
  from annotate_extends_parsed_document [OF r, of 0 "(0, 0)"] ls nl show ?thesis
    using r by auto
qed

text \<open>
  Claim C9, as stated: two components whose centers are more than \<open>2 * (25 + label size)\<close>
  apart, each with a candidate inside the canvas bounds, get labels at distance at least 25.
  This fails. On the blank 800 x 600 canvas the box \<open>(0, 300, 9, 280)\<close> is labelled at its
  right-top candidate \<open>(24, 300)\<close>. The only candidates of the box \<open>(5, 280, 4, 4)\<close> inside the
  bounds are \<open>(24, 280)\<close>, \<open>(24, 282)\<close> and \<open>(24, 284)\<close>, all within 25 of that label, so the
  fallback returns its first candidate \<open>(24, 280)\<close>, at distance 20, although the two centers
  are 158 apart (the label width assumed by the bounds check is 30).
\<close>

theorem far_apart_labels_counterexample:
  "map_sum id snd
     (place_labels_on_svg (\<lambda>s. Some (Element ''svg'' [] None None [])) id (\<lambda>s. None) id ''<svg/>''
        [\<lparr>comp_id = 1, bbox = (5, 280, 4, 4), area = 16\<rparr>,
         \<lparr>comp_id = 0, bbox = (0, 300, 9, 280), area = 2520\<rparr>] 10 10 True) =
     Inr [\<lparr>number = 10, position = (24, 300), component_id = 0, has_leader_line = True\<rparr>,
          \<lparr>number = 20, position = (24, 280), component_id = 1, has_leader_line = False\<rparr>]
   \<and> 2 * (25 + 30) < euclid (calculate_center (0, 300, 9, 280)) (calculate_center (5, 280, 4, 4))
   \<and> (24, 300) \<in> set (candidates (0, 300, 9, 280)) \<and> within_bounds (800, 600) (24, 300)
   \<and> (24, 280) \<in> set (candidates (5, 280, 4, 4)) \<and> within_bounds (800, 600) (24, 280)
   \<and> euclid (24, 300) (24, 280) < 25"
proof -
  have "2 * (25 + 30) < euclid (calculate_center (0, 300, 9, 280)) (calculate_center (5, 280, 4, 4))"
    by (rule euclid_greater) (simp_all add: calculate_center_def sq_dist_def)
  moreover have "euclid (24, 300) (24, 280) < 25"
    by (rule euclid_less) (simp_all add: sq_dist_def)
  moreover have "(24, 300) \<in> set (candidates (0, 300, 9, 280))"
    "(24, 280) \<in> set (candidates (5, 280, 4, 4))"
    by (simp_all add: candidates_def)
  moreover have "within_bounds (800, 600) (24, 300)" "within_bounds (800, 600) (24, 280)"
    by (simp_all add: within_bounds_def)
  ultimately show ?thesis
    using two_boxes_labels by simp
qed

text \<open>
  Claim C9, amended: for any two components, if the one ranked later has a candidate that
  lies within the canvas bounds and is at Euclidean distance at least 25 from every label
  placed before it, then the labels of the two are at Euclidean distance at least 25.
\<close>

theorem labels_apart_when_clear_candidate:
  assumes ok: "fl_ok rnd"
    and r: "place_labels_on_svg fromstring tostring int_of_str rnd svg_content components
              start_number increment add_leader_lines = Inr (out, labels)"
    and p: "parse_svg fromstring svg_content = Some svg_root"
    and w: "get_int int_of_str svg_root ''width'' 800 = Some width"
    and h: "get_int int_of_str svg_root ''height'' 600 = Some height"
    and ij: "i < j" "j < length labels"
    and cand: "\<exists>q \<in> set (candidates (bbox (sort_components_by_importance rnd components ! j))).
                 within_bounds (width, height) q \<and> clear_of (map position (take j labels)) q"
  shows "25 \<le> euclid (position (labels ! i)) (position (labels ! j))"
proof -
  let ?cs = "sort_components_by_importance rnd components"
  let ?placed = "map position (take j labels)"
  let ?P = "\<lambda>q. within_bounds (width, height) q \<and> clear_of ?placed q"
  have l: "labels = placements rnd (width, height) start_number increment add_leader_lines 0 ?cs []"
    using r place_labels_eq [OF p w h, of tostring rnd components start_number increment
        add_leader_lines] by simp
  have jl: "j < length ?cs"
    using ij(2) l by (metis placements_length)
  have "labels ! j = step_label rnd (width, height) start_number increment add_leader_lines j
          (?cs ! j) ?placed"
    using placements_nth [OF jl, of rnd "(width, height)" start_number increment
        add_leader_lines 0 "[]"] l by simp
  then have pos: "position (labels ! j) =
      first_acceptable (width, height) ?placed (candidates (bbox (?cs ! j)))"
    by (simp add: step_label_sel calculate_label_position_eq [OF ok])
  from cand have "find ?P (candidates (bbox (?cs ! j))) \<noteq> None"
    by (auto simp: find_None_iff)
  then obtain q where f: "find ?P (candidates (bbox (?cs ! j))) = Some q"
    by blast
  then have "?P q" by (auto simp: find_Some_iff)
  moreover have "position (labels ! j) = q"
    using pos f by (simp add: first_acceptable_def)
  moreover have "position (labels ! i) \<in> set ?placed"
  proof -
    have "i < length (take j labels)" using ij by simp
    then have "take j labels ! i \<in> set (take j labels)" by (rule nth_mem)
    then show ?thesis using ij by simp
  qed
  ultimately have "25 \<le> euclid (position (labels ! j)) (position (labels ! i))"
    unfolding clear_of_def by blast
  then show ?thesis by (simp add: euclid_sym)
qed

text \<open>
  An instance: the boxes \<open>(50, 50, 40, 40)\<close> and \<open>(400, 300, 60, 60)\<close> are labelled at their
  right-top candidates.
\<close>

theorem labels_apart_when_clear_candidate_witness:
  "\<exists>out labels.
     place_labels_on_svg (\<lambda>s. Some (Element ''svg'' [] None None [])) id (\<lambda>s. None) id ''<svg/>''
       [\<lparr>comp_id = 0, bbox = (50, 50, 40, 40), area = 1600\<rparr>,
        \<lparr>comp_id = 1, bbox = (400, 300, 60, 60), area = 3600\<rparr>] 10 10 True = Inr (out, labels)
     \<and> fl_ok id \<and> map position labels = [(475, 300), (105, 50)]
     \<and> within_bounds (800, 600) (105, 50) \<and> clear_of [(475, 300)] (105, 50)
     \<and> 25 \<le> euclid (position (labels ! 0)) (position (labels ! 1))"
proof -
  let ?comps = "[\<lparr>comp_id = 0, bbox = (50, 50, 40, 40), area = 1600\<rparr>,
        \<lparr>comp_id = 1 :: int, bbox = (400, 300, 60, 60), area = 3600\<rparr>]"
  let ?call = "place_labels_on_svg (\<lambda>s. Some (Element ''svg'' [] None None [])) id (\<lambda>s. None) id
       ''<svg/>'' ?comps 10 10 True"
  let ?labels = "[\<lparr>number = 10, position = (475, 300), component_id = 1, has_leader_line = True\<rparr>,
    \<lparr>number = 20, position = (105, 50), component_id = 0, has_leader_line = True\<rparr>]"
  obtain out where r: "?call = Inr (out, ?labels)"
    using place_labels_eq [OF blank_canvas, of id id ?comps 10 10 True]
    by (simp add: spec_boxes_sorted spec_boxes_placements del: placements.simps)
  have wb: "within_bounds (800, 600) (105, 50)"
    by (simp add: within_bounds_def)
  have cl: "clear_of [(475, 300)] (105, 50)"
    by (simp add: clear_of_def euclid_ge_25 sq_dist_def)
  have cand: "\<exists>q \<in> set (candidates (bbox (sort_components_by_importance id ?comps ! 1))).
                 within_bounds (800, 600) q \<and> clear_of (map position (take 1 ?labels)) q"
    using wb cl by (simp add: spec_boxes_sorted candidates_def)
  have "25 \<le> euclid (position (?labels ! 0)) (position (?labels ! 1))"
    by (rule labels_apart_when_clear_candidate [OF fl_ok_id r blank_canvas _ _ cand]) simp_all
  then show ?thesis
    using r wb cl fl_ok_id by auto
qed

section \<open>Properties of the component detector\<close>

text \<open>
  Claim C6. The shape class depends on the bounding box only through \<open>h = 0\<close> and the ratio
  \<open>w / h\<close>: height 0 is unknown; a ratio strictly between 0.9 and 1.1 is circular; above 2.5
  horizontal; below 0.4 vertical; above 1.5 rectangular_h; below 0.67 rectangular_v;
  otherwise square. A \<open>100 \<times> 100\<close> box is circular, a \<open>300 \<times> 50\<close> box horizontal and
  a \<open>20 \<times> 100\<close> box vertical. The float comparisons of the code agree with the exact ones
  for every rounding satisfying \<open>fl_ok\<close> as long as the height is at most \<open>2 ^ 40\<close> pixels.
\<close>

theorem classify_component_by_ratio:
  assumes "fl_ok rnd" and "\<bar>h\<bar> \<le> 2 ^ 40"
  shows "classify_component rnd (x, y, w, h) = shape_class w h
         \<and> classify_component rnd (x, y, 100, 100) = ''circular''
         \<and> classify_component rnd (x, y, 300, 50) = ''horizontal''
         \<and> classify_component rnd (x, y, 20, 100) = ''vertical''"
proof -
  have exact: "classify_component rnd (x, y, w', h') = shape_class w' h'"
    if hb: "\<bar>h'\<bar> \<le> 2 ^ 40" for w' h'
  proof (cases "h' = 0")
    case True
    then show ?thesis by (simp add: classify_component_def shape_class_def)
  next
    case False
    note ok = assms(1)
    note l = ratio_less_const [OF ok False hb, of _ _ w']
    note g = const_less_ratio [OF ok False hb, of _ _ w']
    have "rnd (9 / 10) < rnd (of_int w' / of_int h') \<longleftrightarrow> (9 / 10 :: real) < of_int w' / of_int h'"
      using g [of 10 9] by simp
    moreover have "rnd (of_int w' / of_int h') < rnd (11 / 10) \<longleftrightarrow> (of_int w' / of_int h' :: real) < 11 / 10"
      using l [of 10 11] by simp
    moreover have "rnd (5 / 2) < rnd (of_int w' / of_int h') \<longleftrightarrow> (5 / 2 :: real) < of_int w' / of_int h'"
      using g [of 2 5] by simp
    moreover have "rnd (of_int w' / of_int h') < rnd (4 / 10) \<longleftrightarrow> (of_int w' / of_int h' :: real) < 4 / 10"
      using l [of 10 4] by simp
    moreover have "rnd (3 / 2) < rnd (of_int w' / of_int h') \<longleftrightarrow> (3 / 2 :: real) < of_int w' / of_int h'"
      using g [of 2 3] by simp
    moreover have "rnd (of_int w' / of_int h') < rnd (67 / 100) \<longleftrightarrow> (of_int w' / of_int h' :: real) < 67 / 100"
      using l [of 100 67] by simp
    ultimately show ?thesis using False
      by (simp add: classify_component_def shape_class_def shape_of_ratio_def Let_def)
  qed
  have "classify_component rnd (x, y, 100, 100) = ''circular''"
    by (simp add: exact shape_class_def shape_of_ratio_def)
  moreover have "classify_component rnd (x, y, 300, 50) = ''horizontal''"
    by (simp add: exact shape_class_def shape_of_ratio_def)
  moreover have "classify_component rnd (x, y, 20, 100) = ''vertical''"
    by (simp add: exact shape_class_def shape_of_ratio_def)
  ultimately show ?thesis using exact [OF assms(2)] by simp
qed

theorem classify_component_by_ratio_witness:
  "fl_ok id \<and> \<bar>2 :: int\<bar> \<le> 2 ^ 40 \<and> classify_component id (0, 0, 3, 2) = ''square''
   \<and> classify_component id (0, 0, 7, 0) = ''unknown''"
  using classify_component_by_ratio [OF fl_ok_id, of 2 0 0 3]
    classify_component_by_ratio [OF fl_ok_id, of 0 0 0 7]
  by (simp add: fl_ok_id shape_class_def shape_of_ratio_def)

text \<open>
  Claim C4, as stated: once a load of the primary model has failed on an instance, every
  later call of \<^verbatim>\<open>detect_components\<close> on it uses the fallback without attempting the load
  again. This fails: \<^verbatim>\<open>_lazy_load_model\<close> leaves \<^verbatim>\<open>_initialized\<close> false after a failure, so the
  next call runs the \<^verbatim>\<open>try\<close> block again. When the first attempt fails and the second
  succeeds, the second call loads the model and answers with the primary strategy: here
  it returns the one mask of the generator, which the fallback (without OpenCV, the empty
  list) would not.
\<close>

theorem load_failure_cached_counterexample:
  "detect_components id (\<lambda>b. Some b) (\<lambda>n. if n = 0 then Inl OtherException else Inr ())
     (\<lambda>g img. [\<lparr>m_area = 400, m_bbox = (10, 10, 20, 20), m_segmentation = (),
                  m_predicted_iou = None, m_stability_score = None\<rparr>])
     None new_detector ''png'' 100 50 =
   Inr (\<lparr>initialized = False, mask_generator = None, load_attempts = 1\<rparr>, [])
   \<and> detect_components id (\<lambda>b. Some b) (\<lambda>n. if n = 0 then Inl OtherException else Inr ())
     (\<lambda>g img. [\<lparr>m_area = 400, m_bbox = (10, 10, 20, 20), m_segmentation = (),
                  m_predicted_iou = None, m_stability_score = None\<rparr>])
     None \<lparr>initialized = False, mask_generator = None, load_attempts = 1\<rparr> ''png'' 100 50 =
   Inr (\<lparr>initialized = True, mask_generator = Some (), load_attempts = 2\<rparr>,
        [\<lparr>comp_id = 0, bbox = (10, 10, 20, 20), area = 400, mask = (),
          predicted_iou = 0, stability_score = 0, ctype = ''circular''\<rparr>])
   \<and> detect_with_fallback id None ''png'' 100 = ([] :: unit detected list)"
  by (simp add: detect_components_def lazy_load_model_def new_detector_def Let_def
      detect_with_fallback_def detect_with_sam2_def sam2_component_def py_take_def
      classify_component_def)

text \<open>
  Claim C4, amended: a failed load is not cached. In any sequence of calls of
  \<^verbatim>\<open>detect_components\<close> with decodable images on an instance that is not initialized, as
  long as the load attempts fail, every call attempts the load again (one attempt per
  call), uses the fallback strategy, and leaves the instance not initialized.
\<close>

theorem failed_load_is_retried:
  assumes "\<not> initialized d"
    and "\<forall>c \<in> set calls. decode (fst c) = Some (img (fst c))"
    and "\<forall>i < length calls. \<exists>e. load (load_attempts d + i) = Inl e"
  shows "detect_calls rnd decode load generate cv2_module d calls =
           (map (\<lambda>(image_bytes, min_area, max_components).
                   Inr (py_take max_components
                          (sort_key (\<lambda>x. - area x)
                             (detect_with_fallback rnd cv2_module (img image_bytes) min_area))))
              calls,
            d\<lparr>initialized := False, load_attempts := load_attempts d + length calls\<rparr>)"
  using assms
proof (induction calls arbitrary: d)
  case Nil
  then show ?case by simp
next
  case (Cons c calls)
  obtain b mi ma where c: "c = (b, mi, ma)" by (cases c)
  let ?d1 = "d\<lparr>initialized := False, load_attempts := Suc (load_attempts d)\<rparr>"
  from Cons.prems(3) obtain e where e: "load (load_attempts d) = Inl e"
    by fastforce
  have dec: "decode b = Some (img b)" using Cons.prems(2) c by simp
  have first: "detect_components rnd decode load generate cv2_module d b mi ma =
      Inr (?d1, py_take ma (sort_key (\<lambda>x. - area x)
                              (detect_with_fallback rnd cv2_module (img b) mi)))"
    using detect_components_failure [where d = d and load = load and e = e and decode = decode
        and image_bytes = b and img = "img b" and rnd = rnd and generate = generate
        and cv2_module = cv2_module and min_area = mi and max_components = ma]
      Cons.prems(1) e dec by simp
  have a1: "\<not> initialized ?d1" by simp
  have a2: "\<forall>c \<in> set calls. decode (fst c) = Some (img (fst c))"
    using Cons.prems(2) by simp
  have a3: "\<forall>i < length calls. \<exists>e. load (load_attempts ?d1 + i) = Inl e"
  proof (intro allI impI)
    fix i assume "i < length calls"
    then have "Suc i < length (c # calls)" by simp
    with Cons.prems(3) have "\<exists>e. load (load_attempts d + Suc i) = Inl e" by blast
    then show "\<exists>e. load (load_attempts ?d1 + i) = Inl e" by simp
  qed
  from Cons.IH [OF a1 a2 a3] first show ?case
    by (simp add: c)
qed

text \<open>An instance: three calls on a fresh instance while \<^verbatim>\<open>sam2\<close> cannot be imported.\<close>

theorem failed_load_is_retried_witness:
  "\<not> initialized (new_detector :: unit detector)
   \<and> detect_calls id (\<lambda>b. Some b) (\<lambda>n. Inl ImportError) (\<lambda>g img. []) None
       (new_detector :: unit detector) [(''png'', 100, 50), (''jpg'', 100, 50), (''png'', 10, 5)] =
     ([Inr [], Inr [], Inr ([] :: unit detected list)],
      \<lparr>initialized = False, mask_generator = None, load_attempts = 3\<rparr>)"
  using failed_load_is_retried [where d = "new_detector :: unit detector"
      and calls = "[(''png'', 100, 50), (''jpg'', 100, 50), (''png'', 10, 5)]"
      and load = "\<lambda>n. Inl ImportError" and decode = "\<lambda>b. Some b" and img = "\<lambda>b. b"
      and rnd = id and generate = "\<lambda>g img. []" and cv2_module = None]
  by (simp add: detect_with_fallback_def py_take_def new_detector_def numeral_3_eq_3
      del: detect_calls.simps)

text \<open>
  Claim C10. When the primary model cannot be loaded and OpenCV cannot be imported,
  \<^verbatim>\<open>detect_components\<close> returns the empty list for every image, whatever \<^verbatim>\<open>min_area\<close> and
  \<^verbatim>\<open>max_components\<close> are; it raises nothing.
\<close>

theorem no_detector_returns_empty:
  assumes "decode image_bytes = Some img"
    and "\<not> initialized d" and "load (load_attempts d) = Inl e"
  shows "\<exists>d'. detect_components rnd decode load generate None d image_bytes
                min_area max_components = Inr (d', [])"
  using assms
    detect_components_failure [where d = d and load = load and e = e and decode = decode
      and image_bytes = image_bytes and img = img and rnd = rnd and generate = generate
      and cv2_module = None and min_area = min_area and max_components = max_components]
  by (auto simp: detect_with_fallback_def py_take_Nil)

text \<open>An instance, with a negative \<^verbatim>\<open>max_components\<close>.\<close>

theorem no_detector_returns_empty_witness:
  "(\<lambda>b. Some b) ''png'' = Some ''png''
   \<and> \<not> initialized (new_detector :: unit detector)
   \<and> (\<exists>d'. detect_components id (\<lambda>b. Some b) (\<lambda>n. Inl OtherException) (\<lambda>g img. [])
                None (new_detector :: unit detector) ''png'' 100 (- 3)
              = Inr (d', ([] :: unit detected list)))"
  using no_detector_returns_empty [where d = "new_detector :: unit detector"
      and load = "\<lambda>n. Inl OtherException" and e = OtherException and decode = "\<lambda>b. Some b"
      and image_bytes = "''png''" and img = "''png''" and rnd = id and generate = "\<lambda>g img. []"
      and min_area = 100 and max_components = "- 3"]
  by (auto simp: new_detector_def)

end
